theory Spec2Isabelle
  imports Complex_Main "HOL-Library.Code_Target_Numeral"
begin

section \<open>Data model (package models)\<close>

text \<open>
  The Go structs become records. A \<open>float64\<close> field holds the real number that the
  float64 value stands for; the one arithmetic operation this code performs on such
  values, the addition in \<open>UpdateAccountBalance\<close>, is the float64 addition
  \<open>float64_add\<close> defined below, which rounds. Negation and comparison of float64 values
  are exact. \<open>time.Time\<close> is a tick count. \<open>TransactionType\<close> and
  \<open>TransactionStatus\<close> are Go string types and stay strings here, so that a request with
  an unknown type is a value of the model.
\<close>

type_synonym Time = nat

record Account =
  acc_ID :: string
  acc_Balance :: real
  acc_CreatedAt :: Time
  acc_UpdatedAt :: Time

type_synonym TransactionType = string

definition Deposit :: TransactionType where
  "Deposit = ''deposit''"

definition Withdrawal :: TransactionType where
  "Withdrawal = ''withdrawal''"

type_synonym TransactionStatus = string

definition Pending :: TransactionStatus where
  "Pending = ''pending''"

definition Completed :: TransactionStatus where
  "Completed = ''completed''"

definition Failed :: TransactionStatus where
  "Failed = ''failed''"

record Transaction =
  tx_ID :: string
  tx_AccountID :: string
  tx_Type :: TransactionType
  tx_Amount :: real
  tx_Status :: TransactionStatus
  tx_Reference :: string
  tx_BalanceBefore :: real
  tx_BalanceAfter :: real
  tx_CreatedAt :: Time
  tx_UpdatedAt :: Time

record TransactionRequest =
  req_AccountID :: string
  req_Type :: TransactionType
  req_Amount :: real
  req_Reference :: string

record TransactionResponse =
  resp_ID :: string
  resp_AccountID :: string
  resp_Type :: TransactionType
  resp_Amount :: real
  resp_Status :: TransactionStatus
  resp_BalanceBefore :: real
  resp_BalanceAfter :: real
  resp_CreatedAt :: Time

section \<open>Errors and the environment of one call\<close>

text \<open>
  Go errors are values built by \<open>fmt.Errorf\<close>. \<open>New msg\<close> is an error made from a
  message alone, \<open>Wrap msg e\<close> is \<open>fmt.Errorf(msg + ": %w", e)\<close>. The remaining
  constructors are the errors of the drivers: \<open>sql.ErrNoRows\<close>, a duplicate-key write
  error of the document store, and any other infrastructure failure.
\<close>

datatype error =
    ErrNoRows
  | ErrDuplicateKey
  | ErrUnavailable
  | New string
  | Wrap string error

text \<open>
  Everything a call takes from outside the program is a field of \<open>Env\<close>: the clock, the
  identifiers \<open>uuid.New()\<close> returns, whether each driver call fails for an infrastructure
  reason, and the documents a concurrent submitter gets into the collection between the
  look-up by reference and the insert of \<open>CreateTransaction\<close>.
\<close>

record Env =
  now :: Time
  uuid_reference :: string
  uuid_id :: string
  pg_begin_err :: bool
  pg_query_err :: bool
  pg_lock_err :: bool
  pg_exec_err :: bool
  pg_commit_err :: bool
  mongo_find_err :: bool
  mongo_cursor_err :: bool
  mongo_insert_err :: bool
  mongo_update_err :: bool
  amqp_publish_err :: bool
  race :: "Transaction list"

definition calm :: Env where
  "calm = \<lparr> now = 0, uuid_reference = ''uuid-r'', uuid_id = ''uuid-i'',
            pg_begin_err = False, pg_query_err = False, pg_lock_err = False,
            pg_exec_err = False, pg_commit_err = False,
            mongo_find_err = False, mongo_cursor_err = False,
            mongo_insert_err = False, mongo_update_err = False, amqp_publish_err = False, race = [] \<rparr>"

section \<open>Addition of float64 values\<close>

text \<open>
  Go's \<open>+\<close> on \<open>float64\<close> is the IEEE 754 binary64 addition: the exact sum, rounded to
  the nearest number with a significand of 53 bits, a tie going to the even significand.
  \<open>ilog2 n\<close> is the position of the leading bit of \<open>n\<close>, \<open>expo x\<close> the binary
  exponent of a positive \<open>x\<close> (\<open>2 powi expo x \<le> x < 2 powi (expo x + 1)\<close>), and
  \<open>ulp x\<close> the distance between neighbouring 53-bit numbers at \<open>x\<close>.

  The exponent is not bounded here. Below the normal range this changes nothing for a sum:
  two float64 values are multiples of \<open>2 powi (- 1074)\<close>, so is their sum, and such a sum
  of magnitude under \<open>2 powi (- 1022)\<close> has at most 52 bits and is exact in binary64 and
  here alike. Above the range, a result of magnitude \<open>2 ^ 1024\<close> or more stands for the
  infinity that binary64 returns; \<open>UpdateAccountBalance\<close> treats it so.
\<close>

fun ilog2 :: "nat \<Rightarrow> nat" where
  "ilog2 n = (if n < 2 then 0 else Suc (ilog2 (n div 2)))"

definition expo :: "real \<Rightarrow> int" where
  "expo x = (if 1 \<le> x then int (ilog2 (nat \<lfloor>x\<rfloor>))
             else - int (Suc (ilog2 (nat \<lceil>1 / x\<rceil> - 1))))"

definition ulp :: "real \<Rightarrow> real" where
  "ulp x = 2 powi (expo \<bar>x\<bar> - 52)"

definition round_half_even :: "real \<Rightarrow> int" where
  "round_half_even q =
     (let f = \<lfloor>q\<rfloor>; r = q - of_int f
      in if r < 1 / 2 then f
         else if 1 / 2 < r then f + 1
         else if even f then f else f + 1)"

definition round64 :: "real \<Rightarrow> real" where
  "round64 x = (if x = 0 then 0 else of_int (round_half_even (x / ulp x)) * ulp x)"

definition float64_add :: "real \<Rightarrow> real \<Rightarrow> real" where
  "float64_add a b = round64 (a + b)"

section \<open>BalanceStore gateway (type Postgres)\<close>

text \<open>The table \<open>accounts\<close>, keyed by its primary key \<open>id\<close>.\<close>

type_synonym accounts = "string \<rightharpoonup> Account"

text \<open>
  \<open>Postgres.CreateAccount\<close>: the \<open>INSERT ... RETURNING\<close> fails on an infrastructure error
  or when the primary key exists; otherwise the row is stored and returned.
\<close>

definition Postgres_CreateAccount ::
  "Env \<Rightarrow> accounts \<Rightarrow> real \<Rightarrow> (error + Account) \<times> accounts" where
  "Postgres_CreateAccount env pg initialBalance =
     (let ident = uuid_id env;
          account = \<lparr> acc_ID = ident, acc_Balance = initialBalance,
                      acc_CreatedAt = now env, acc_UpdatedAt = now env \<rparr>
      in if pg_exec_err env then (Inl (Wrap ''failed to create account'' ErrUnavailable), pg)
         else if pg ident \<noteq> None then (Inl (Wrap ''failed to create account'' ErrDuplicateKey), pg)
         else (Inr account, pg(ident \<mapsto> account)))"

definition Postgres_GetAccount :: "Env \<Rightarrow> accounts \<Rightarrow> string \<Rightarrow> error + Account" where
  "Postgres_GetAccount env pg ident =
     (if pg_query_err env then Inl (Wrap ''failed to get account'' ErrUnavailable)
      else case pg ident of
             None \<Rightarrow> Inl (New ''account not found'')
           | Some account \<Rightarrow> Inr account)"

text \<open>
  \<open>Postgres.UpdateAccountBalance\<close>. The SQL transaction works on the row it read; the
  table changes only at \<open>Commit\<close>, and every error return runs the deferred \<open>Rollback\<close>,
  which leaves the table as it was. The new balance is the float64 sum. When that sum is
  an infinity, a negative one is below 0 and ends in "insufficient funds", and a positive
  one passes the check and is handed to the \<open>UPDATE\<close>, which fails: the column
  \<open>DECIMAL(20, 2)\<close> holds no infinity. The table of the model holds the float64 value
  that the statement is given; what the column makes of a finite value (it keeps two
  decimals) lies in the database, not in this code, and is not modelled.
\<close>

definition UpdateAccountBalance ::
  "Env \<Rightarrow> accounts \<Rightarrow> string \<Rightarrow> real \<Rightarrow> (error + real \<times> real) \<times> accounts" where
  "UpdateAccountBalance env pg ident amount =
     (if pg_begin_err env then (Inl (Wrap ''failed to begin transaction'' ErrUnavailable), pg)
      else if pg_lock_err env
        then (Inl (Wrap ''Failed to get current balance'' ErrUnavailable), pg)
      else case pg ident of
        None \<Rightarrow> (Inl (Wrap ''Failed to get current balance'' ErrNoRows), pg)
      | Some row \<Rightarrow>
          (let currentBalance = acc_Balance row;
               newBalance = float64_add currentBalance amount
           in if newBalance < 0 then (Inl (New ''insufficient funds''), pg)
              else if pg_exec_err env \<or> 2 ^ 1024 \<le> newBalance
                then (Inl (Wrap ''failed to update balance'' ErrUnavailable), pg)
              else if pg_commit_err env
                then (Inl (Wrap ''failed to commit transaction'' ErrUnavailable), pg)
              else (Inr (currentBalance, newBalance),
                    pg(ident \<mapsto> row\<lparr> acc_Balance := newBalance, acc_UpdatedAt := now env \<rparr>))))"

section \<open>Account service\<close>

definition AccountService_CreateAccount ::
  "Env \<Rightarrow> accounts \<Rightarrow> real \<Rightarrow> (error + Account) \<times> accounts" where
  "AccountService_CreateAccount env pg initialBalance =
     (if initialBalance < 0 then (Inl (New ''initial balance cannot be negative''), pg)
      else case Postgres_CreateAccount env pg initialBalance of
             (Inl err, pg') \<Rightarrow> (Inl (Wrap ''failed to create account'' err), pg')
           | (Inr account, pg') \<Rightarrow> (Inr account, pg'))"

definition AccountService_GetAccount :: "Env \<Rightarrow> accounts \<Rightarrow> string \<Rightarrow> error + Account" where
  "AccountService_GetAccount env pg ident =
     (case Postgres_GetAccount env pg ident of
        Inl err \<Rightarrow> Inl (Wrap ''failed to get account'' err)
      | Inr account \<Rightarrow> Inr account)"

section \<open>LogStore gateway (type MongoDB)\<close>

text \<open>
  The collection \<open>transactions\<close> is the list of its documents in insertion order. It
  carries a unique index on \<open>_id\<close> and one on \<open>reference\<close>: \<open>InsertOne\<close> answers a
  duplicate-key error when either value is taken.
\<close>

type_synonym collection = "Transaction list"

text \<open>
  \<open>MongoDB.CreateTransaction\<close> writes through the pointer it is given (the identifier and
  the two time stamps), so the stamped transaction is returned beside the collection.
\<close>

definition MongoDB_CreateTransaction ::
  "Env \<Rightarrow> collection \<Rightarrow> Transaction \<Rightarrow> error option \<times> collection \<times> Transaction" where
  "MongoDB_CreateTransaction env coll tx =
     (let tx1 = (if tx_ID tx = [] then tx\<lparr> tx_ID := uuid_id env \<rparr> else tx);
          tx2 = tx1\<lparr> tx_CreatedAt := now env, tx_UpdatedAt := now env \<rparr>
      in if mongo_insert_err env
           then (Some (Wrap ''failed to insert transaction'' ErrUnavailable), coll, tx2)
         else if (\<exists>d \<in> set coll. tx_ID d = tx_ID tx2 \<or> tx_Reference d = tx_Reference tx2)
           then (Some (Wrap ''failed to insert transaction'' ErrDuplicateKey), coll, tx2)
         else (None, coll @ [tx2], tx2))"

definition MongoDB_GetTransactionByID ::
  "Env \<Rightarrow> collection \<Rightarrow> string \<Rightarrow> error + Transaction" where
  "MongoDB_GetTransactionByID env coll ident =
     (if mongo_find_err env then Inl (Wrap ''failed to get transaction'' ErrUnavailable)
      else case find (\<lambda>d. tx_ID d = ident) coll of
             None \<Rightarrow> Inl (New ''transaction not found'')
           | Some transaction \<Rightarrow> Inr transaction)"

text \<open>An absent reference is the answer \<open>(nil, nil)\<close>: no error and no transaction.\<close>

definition MongoDB_GetTransactionByReference ::
  "Env \<Rightarrow> collection \<Rightarrow> string \<Rightarrow> error + Transaction option" where
  "MongoDB_GetTransactionByReference env coll reference =
     (if mongo_find_err env
        then Inl (Wrap ''failed to get transaction by reference'' ErrUnavailable)
      else Inr (find (\<lambda>d. tx_Reference d = reference) coll))"

text \<open>\<open>UpdateOne\<close> changes the first document the filter matches; none matching is no error.\<close>

fun UpdateOne ::
  "(Transaction \<Rightarrow> bool) \<Rightarrow> (Transaction \<Rightarrow> Transaction) \<Rightarrow> collection \<Rightarrow> collection" where
  "UpdateOne P f [] = []"
| "UpdateOne P f (d # ds) = (if P d then f d # ds else d # UpdateOne P f ds)"

definition UpdateTransactionStatus ::
  "Env \<Rightarrow> collection \<Rightarrow> string \<Rightarrow> TransactionStatus \<Rightarrow> real \<Rightarrow> real
     \<Rightarrow> error option \<times> collection" where
  "UpdateTransactionStatus env coll ident status balanceBefore balanceAfter =
     (if mongo_update_err env
        then (Some (Wrap ''failed to update transaction'' ErrUnavailable), coll)
      else (None,
            UpdateOne (\<lambda>d. tx_ID d = ident)
              (\<lambda>d. d\<lparr> tx_Status := status, tx_BalanceBefore := balanceBefore,
                       tx_BalanceAfter := balanceAfter, tx_UpdatedAt := now env \<rparr>)
              coll))"

text \<open>
  The options of \<open>Find\<close>, as the document store reads them: sorted by \<open>created_at\<close>
  descending, then \<open>skip\<close> documents dropped, then at most \<open>limit\<close> kept, where a limit
  of 0 is no limit and a negative limit keeps at most its absolute value. A negative skip
  is refused by the server.
\<close>

definition SetSort :: "collection \<Rightarrow> collection" where
  "SetSort docs = rev (sort_key tx_CreatedAt docs)"

definition SetLimit :: "int \<Rightarrow> collection \<Rightarrow> collection" where
  "SetLimit limit docs = (if limit = 0 then docs else take (nat \<bar>limit\<bar>) docs)"

definition MongoDB_GetTransactionsByAccountID ::
  "Env \<Rightarrow> collection \<Rightarrow> string \<Rightarrow> int \<Rightarrow> int \<Rightarrow> error + Transaction list" where
  "MongoDB_GetTransactionsByAccountID env coll accountID limit offset =
     (if mongo_find_err env \<or> offset < 0
        then Inl (Wrap ''failed to find transactions'' ErrUnavailable)
      else if mongo_cursor_err env
        then Inl (Wrap ''failed to decode transactions'' ErrUnavailable)
      else Inr (SetLimit limit (drop (nat offset)
                  (SetSort (filter (\<lambda>d. tx_AccountID d = accountID) coll)))))"

section \<open>Broker gateway (type RabbitMQ)\<close>

text \<open>
  A message body is the JSON of a transaction, or bytes that do not decode. The queue is
  the list of bodies published. \<open>json.Marshal\<close> of a transaction with finite amounts
  cannot fail, so \<open>PublishTransaction\<close> fails only when the broker does.
\<close>

datatype body = Json Transaction | Garbage string

type_synonym queue = "body list"

definition Unmarshal :: "body \<Rightarrow> error + Transaction" where
  "Unmarshal b = (case b of Json tx \<Rightarrow> Inr tx | Garbage s \<Rightarrow> Inl (New s))"

definition PublishTransaction :: "Env \<Rightarrow> queue \<Rightarrow> Transaction \<Rightarrow> error option \<times> queue" where
  "PublishTransaction env q tx =
     (if amqp_publish_err env
        then (Some (Wrap ''failed to publish a message'' ErrUnavailable), q)
      else (None, q @ [Json tx]))"

section \<open>Transaction service\<close>

text \<open>
  \<open>TransactionService.CreateTransaction\<close>. The zero values of the fields the literal
  leaves out are written out. Between the look-up and the insert the collection may have
  grown by \<open>race env\<close>.
\<close>

definition TransactionService_CreateTransaction ::
  "Env \<Rightarrow> collection \<Rightarrow> queue \<Rightarrow> TransactionRequest
     \<Rightarrow> (error + Transaction) \<times> collection \<times> queue" where
  "TransactionService_CreateTransaction env coll q req =
     (let reference = (if req_Reference req = [] then uuid_reference env
                       else req_Reference req)
      in case MongoDB_GetTransactionByReference env coll reference of
           Inl err \<Rightarrow> (Inl (Wrap ''Failed to check for existing transaction'' err), coll, q)
         | Inr (Some existingTx) \<Rightarrow> (Inr existingTx, coll, q)
         | Inr None \<Rightarrow>
             (let tx = \<lparr> tx_ID = [], tx_AccountID = req_AccountID req,
                         tx_Type = req_Type req, tx_Amount = req_Amount req,
                         tx_Status = Pending, tx_Reference = reference,
                         tx_BalanceBefore = 0, tx_BalanceAfter = 0,
                         tx_CreatedAt = 0, tx_UpdatedAt = 0 \<rparr>
              in case MongoDB_CreateTransaction env (coll @ race env) tx of
                   (Some err, coll', tx') \<Rightarrow>
                     (Inl (Wrap ''Failed to create transaction'' err), coll', q)
                 | (None, coll', tx') \<Rightarrow>
                     (case PublishTransaction env q tx' of
                        (Some err, q') \<Rightarrow>
                          (Inl (Wrap ''failed to queue transaction'' err), coll', q')
                      | (None, q') \<Rightarrow> (Inr tx', coll', q'))))"

definition markTransactionFailed ::
  "Env \<Rightarrow> collection \<Rightarrow> string \<Rightarrow> error \<Rightarrow> error \<times> collection" where
  "markTransactionFailed env coll ident err =
     (case UpdateTransactionStatus env coll ident Failed 0 0 of
        (updateErr, coll') \<Rightarrow> (err, coll'))"

definition ProcessTransaction ::
  "Env \<Rightarrow> accounts \<Rightarrow> collection \<Rightarrow> Transaction \<Rightarrow> error option \<times> accounts \<times> collection" where
  "ProcessTransaction env pg coll tx =
     (case Postgres_GetAccount env pg (tx_AccountID tx) of
        Inl err \<Rightarrow>
          (case markTransactionFailed env coll (tx_ID tx) (Wrap ''account not found'' err) of
             (e, coll') \<Rightarrow> (Some e, pg, coll'))
      | Inr account \<Rightarrow>
          (let amount = (if tx_Type tx = Withdrawal then - tx_Amount tx else tx_Amount tx)
           in case UpdateAccountBalance env pg (tx_AccountID tx) amount of
                (Inl err, pg') \<Rightarrow>
                  (case markTransactionFailed env coll (tx_ID tx)
                          (Wrap ''failed to update balance'' err) of
                     (e, coll') \<Rightarrow> (Some e, pg', coll'))
              | (Inr (balanceBefore, balanceAfter), pg') \<Rightarrow>
                  (case UpdateTransactionStatus env coll (tx_ID tx) Completed
                          balanceBefore balanceAfter of
                     (Some err, coll') \<Rightarrow>
                       (Some (Wrap ''failed to update transaction status'' err), pg', coll')
                   | (None, coll') \<Rightarrow> (None, pg', coll'))))"

definition TransactionService_GetTransactionsByAccountID ::
  "Env \<Rightarrow> collection \<Rightarrow> string \<Rightarrow> int \<Rightarrow> int \<Rightarrow> error + Transaction list" where
  "TransactionService_GetTransactionsByAccountID env coll accountID limit offset =
     (case MongoDB_GetTransactionsByAccountID env coll accountID limit offset of
        Inl err \<Rightarrow> Inl (Wrap ''failed to get transactions'' err)
      | Inr txs \<Rightarrow> Inr txs)"

section \<open>HTTP handlers\<close>

text \<open>
  \<open>strconv.Atoi\<close> of the Go library, on a platform whose \<open>int\<close> has 64 bits: an optional
  sign, then at least one decimal digit and nothing else; a value outside the range of
  \<open>int\<close> is an error.
\<close>

definition is_digit :: "char \<Rightarrow> bool" where
  "is_digit c = (48 \<le> (of_char c :: nat) \<and> (of_char c :: nat) \<le> 57)"

fun decimal :: "string \<Rightarrow> nat \<Rightarrow> nat" where
  "decimal [] n = n"
| "decimal (c # cs) n = decimal cs (n * 10 + (of_char c - 48))"

definition Atoi :: "string \<Rightarrow> int option" where
  "Atoi s =
     (let negative = (s \<noteq> [] \<and> hd s = CHR ''-'');
          digits = (if s \<noteq> [] \<and> (hd s = CHR ''-'' \<or> hd s = CHR ''+'') then tl s else s)
      in if digits = [] \<or> \<not> list_all is_digit digits then None
         else (let n = (if negative then - int (decimal digits 0) else int (decimal digits 0))
               in if n < - (2 ^ 63) \<or> 2 ^ 63 - 1 < n then None else Some n))"

text \<open>
  A response is its status code and its body. The request body of \<open>CreateTransaction\<close>
  is \<open>None\<close> when the JSON does not decode.
\<close>

datatype response_body =
    ErrorText string
  | ErrorOf error
  | TransactionBody TransactionResponse
  | TransactionList "TransactionResponse list"

definition created_response :: "Transaction \<Rightarrow> TransactionResponse" where
  "created_response tx =
     \<lparr> resp_ID = tx_ID tx, resp_AccountID = tx_AccountID tx, resp_Type = tx_Type tx,
       resp_Amount = tx_Amount tx, resp_Status = tx_Status tx, resp_BalanceBefore = 0,
       resp_BalanceAfter = 0, resp_CreatedAt = tx_CreatedAt tx \<rparr>"

definition full_response :: "Transaction \<Rightarrow> TransactionResponse" where
  "full_response tx =
     \<lparr> resp_ID = tx_ID tx, resp_AccountID = tx_AccountID tx, resp_Type = tx_Type tx,
       resp_Amount = tx_Amount tx, resp_Status = tx_Status tx,
       resp_BalanceBefore = tx_BalanceBefore tx, resp_BalanceAfter = tx_BalanceAfter tx,
       resp_CreatedAt = tx_CreatedAt tx \<rparr>"

definition Handler_CreateTransaction ::
  "Env \<Rightarrow> accounts \<Rightarrow> collection \<Rightarrow> queue \<Rightarrow> TransactionRequest option
     \<Rightarrow> (nat \<times> response_body) \<times> collection \<times> queue" where
  "Handler_CreateTransaction env pg coll q decoded =
     (case decoded of
        None \<Rightarrow> ((400, ErrorText ''Invalid request payload''), coll, q)
      | Some req \<Rightarrow>
          (case AccountService_GetAccount env pg (req_AccountID req) of
             Inl err \<Rightarrow> ((404, ErrorText ''Account not found''), coll, q)
           | Inr account \<Rightarrow>
               (case TransactionService_CreateTransaction env coll q req of
                  (Inl err, coll', q') \<Rightarrow> ((500, ErrorOf err), coll', q')
                | (Inr tx, coll', q') \<Rightarrow>
                    ((201, TransactionBody (created_response tx)), coll', q'))))"

definition Handler_GetTransactions ::
  "Env \<Rightarrow> collection \<Rightarrow> string \<Rightarrow> string \<Rightarrow> string \<Rightarrow> nat \<times> response_body" where
  "Handler_GetTransactions env coll accountID limitStr offsetStr =
     (let limit = (if limitStr \<noteq> [] then
                     (case Atoi limitStr of
                        Some parsedLimit \<Rightarrow> if parsedLimit > 0 then parsedLimit else 10
                      | None \<Rightarrow> 10)
                   else 10);
          offset = (if offsetStr \<noteq> [] then
                      (case Atoi offsetStr of
                         Some parsedOffset \<Rightarrow> if parsedOffset \<ge> 0 then parsedOffset else 0
                       | None \<Rightarrow> 0)
                    else 0)
      in case TransactionService_GetTransactionsByAccountID env coll accountID limit offset of
           Inl err \<Rightarrow> (500, ErrorOf err)
         | Inr txs \<Rightarrow> (200, TransactionList (map full_response txs)))"

section \<open>Sequences of balance operations\<close>

text \<open>
  The committed table after a sequence of account creations and balance updates, each
  with its own environment, starting from the empty table.
\<close>

datatype op = OpCreateAccount Env real | OpApplyDelta Env string real

fun apply_op :: "accounts \<Rightarrow> op \<Rightarrow> accounts" where
  "apply_op pg (OpCreateAccount env initialBalance) =
     snd (AccountService_CreateAccount env pg initialBalance)"
| "apply_op pg (OpApplyDelta env ident amount) =
     snd (UpdateAccountBalance env pg ident amount)"

definition committed :: "op list \<Rightarrow> accounts" where
  "committed ops = foldl apply_op Map.empty ops"

definition nonneg :: "accounts \<Rightarrow> bool" where
  "nonneg pg = (\<forall>ident row. pg ident = Some row \<longrightarrow> 0 \<le> acc_Balance row)"

section \<open>The consumer and processor loops\<close>

text \<open>
  \<open>RabbitMQ.ConsumeTransactions\<close> and \<open>TransactionService.StartProcessor\<close> each start
  one goroutine; the two meet on the unbuffered channel \<open>txChan\<close>. The pair is a
  transition system: a state holds where each goroutine stands, and an action is one step
  of one goroutine (or of the outside world), taken only when the goroutine stands where
  the step starts, and otherwise leaving the state as it is. A schedule is a list of
  actions; every interleaving of the two loops is the run of some schedule.

  The consumer stands at its \<open>select\<close> (\<open>CSelect\<close>), at the send \<open>txChan <- tx\<close> with
  a decoded transaction in hand (\<open>CSend\<close>), before \<open>msg.Ack(false)\<close> (\<open>CAck\<close>), or has
  returned. The processor stands at its \<open>select\<close>, inside \<open>ProcessTransaction\<close>, or has
  returned. A delivery is named by its position in the stream of deliveries.
\<close>

datatype cstate = CSelect | CSend nat Transaction | CAck nat | CReturned

datatype pstate = PSelect | PProcess nat Transaction | PReturned

datatype event =
    Rejected nat
  | Handed nat
  | Acked nat
  | Processed nat "error option"

record sys =
  pending :: "body list"
  next_tag :: nat
  consumer :: cstate
  processor :: pstate
  cancelled :: bool
  msgs_closed :: bool
  sys_pg :: accounts
  sys_coll :: collection
  trace :: "event list"

datatype action =
    Deliver
  | ConsumerReturn
  | Handoff
  | Ack
  | Process Env
  | ProcessorReturn
  | Cancel
  | CloseMsgs

definition deliver :: "sys \<Rightarrow> sys" where
  "deliver s =
     (case pending s of
        [] \<Rightarrow> s
      | b # bs \<Rightarrow>
          (case Unmarshal b of
             Inl err \<Rightarrow> s\<lparr> pending := bs, next_tag := Suc (next_tag s),
                            trace := trace s @ [Rejected (next_tag s)] \<rparr>
           | Inr tx \<Rightarrow> s\<lparr> pending := bs, next_tag := Suc (next_tag s),
                           consumer := CSend (next_tag s) tx \<rparr>))"

fun exec :: "sys \<Rightarrow> action \<Rightarrow> sys" where
  "exec s Deliver = (if consumer s = CSelect then deliver s else s)"
| "exec s ConsumerReturn =
     (if consumer s = CSelect \<and> (cancelled s \<or> (msgs_closed s \<and> pending s = []))
      then s\<lparr> consumer := CReturned \<rparr> else s)"
| "exec s Handoff =
     (case (consumer s, processor s) of
        (CSend t tx, PSelect) \<Rightarrow>
          s\<lparr> consumer := CAck t, processor := PProcess t tx, trace := trace s @ [Handed t] \<rparr>
      | _ \<Rightarrow> s)"
| "exec s Ack =
     (case consumer s of
        CAck t \<Rightarrow> s\<lparr> consumer := CSelect, trace := trace s @ [Acked t] \<rparr>
      | _ \<Rightarrow> s)"
| "exec s (Process env) =
     (case processor s of
        PProcess t tx \<Rightarrow>
          (case ProcessTransaction env (sys_pg s) (sys_coll s) tx of
             (r, pg', coll') \<Rightarrow>
               s\<lparr> processor := PSelect, sys_pg := pg', sys_coll := coll',
                  trace := trace s @ [Processed t r] \<rparr>)
      | _ \<Rightarrow> s)"
| "exec s ProcessorReturn =
     (if processor s = PSelect \<and> (cancelled s \<or> consumer s = CReturned)
      then s\<lparr> processor := PReturned \<rparr> else s)"
| "exec s Cancel = s\<lparr> cancelled := True \<rparr>"
| "exec s CloseMsgs = s\<lparr> msgs_closed := True \<rparr>"

definition start :: "body list \<Rightarrow> accounts \<Rightarrow> collection \<Rightarrow> sys" where
  "start ds pg coll =
     \<lparr> pending = ds, next_tag = 0, consumer = CSelect, processor = PSelect,
       cancelled = False, msgs_closed = False, sys_pg = pg, sys_coll = coll, trace = [] \<rparr>"

definition run :: "sys \<Rightarrow> action list \<Rightarrow> sys" where
  "run s schedule = foldl exec s schedule"

text \<open>\<open>precedes a b xs\<close>: \<open>a\<close> occurs in \<open>xs\<close> before the first \<open>b\<close>.\<close>

definition precedes :: "'a \<Rightarrow> 'a \<Rightarrow> 'a list \<Rightarrow> bool" where
  "precedes a b xs = (a \<in> set (takeWhile (\<lambda>x. x \<noteq> b) xs))"

text \<open>
  What the consumer did, and the schedule seen without the environments of the
  processing steps.
\<close>

fun consumer_event :: "event \<Rightarrow> bool" where
  "consumer_event (Processed t r) = False"
| "consumer_event e = True"

fun shape :: "action \<Rightarrow> action" where
  "shape (Process env) = Process calm"
| "shape a = a"

text \<open>
  The invariant of the runs from \<open>start ds pg coll\<close>, and the relation between two
  states that agree on everything but the stores and the outcomes of processing.
\<close>

fun tag_of :: "event \<Rightarrow> nat" where
  "tag_of (Rejected t) = t"
| "tag_of (Handed t) = t"
| "tag_of (Acked t) = t"
| "tag_of (Processed t r) = t"

definition sys_inv :: "body list \<Rightarrow> sys \<Rightarrow> bool" where
  "sys_inv ds s \<longleftrightarrow>
     next_tag s \<le> length ds \<and> pending s = drop (next_tag s) ds
   \<and> (\<forall>e \<in> set (trace s). tag_of e < next_tag s)
   \<and> (\<forall>t. Rejected t \<in> set (trace s) \<longrightarrow> isl (Unmarshal (ds ! t)))
   \<and> (\<forall>t. Handed t \<in> set (trace s) \<longrightarrow> \<not> isl (Unmarshal (ds ! t)))
   \<and> (\<forall>t. Acked t \<in> set (trace s) \<longrightarrow> precedes (Handed t) (Acked t) (trace s))
   \<and> (\<forall>t. Handed t \<in> set (trace s) \<longrightarrow> Acked t \<in> set (trace s) \<or> consumer s = CAck t)
   \<and> (\<forall>t tx. consumer s = CSend t tx \<longrightarrow>
         Suc t = next_tag s \<and> Unmarshal (ds ! t) = Inr tx \<and> Handed t \<notin> set (trace s))
   \<and> (\<forall>t. consumer s = CAck t \<longrightarrow> Handed t \<in> set (trace s) \<and> Acked t \<notin> set (trace s))
   \<and> (\<forall>t tx. processor s = PProcess t tx \<longrightarrow> Handed t \<in> set (trace s))
   \<and> (\<forall>t r. Processed t r \<in> set (trace s) \<longrightarrow>
         precedes (Handed t) (Processed t r) (trace s))"

definition same_control :: "sys \<Rightarrow> sys \<Rightarrow> bool" where
  "same_control s s' \<longleftrightarrow>
     pending s = pending s' \<and> next_tag s = next_tag s' \<and> consumer s = consumer s'
   \<and> processor s = processor s' \<and> cancelled s = cancelled s'
   \<and> msgs_closed s = msgs_closed s'
   \<and> filter consumer_event (trace s) = filter consumer_event (trace s')"

section \<open>The ledger as a whole\<close>

text \<open>
  The three stores together, and the operations that change them: creating an account,
  submitting a transaction through the handler, and the processor handling a published
  message. The broker delivers at least once, so any message of the queue may be handled
  at any time and any number of times. Each operation is one step; submissions that
  overlap in time are steps in some order, so no step has a race window of its own.
\<close>

record ledger =
  led_pg :: accounts
  led_coll :: collection
  led_queue :: queue

datatype ledger_op =
    DoCreateAccount Env real
  | DoSubmit Env "TransactionRequest option"
  | DoProcess Env nat

fun ledger_step :: "ledger \<Rightarrow> ledger_op \<Rightarrow> ledger" where
  "ledger_step s (DoCreateAccount env initialBalance) =
     s\<lparr> led_pg := snd (AccountService_CreateAccount env (led_pg s) initialBalance) \<rparr>"
| "ledger_step s (DoSubmit env decoded) =
     (case Handler_CreateTransaction (env\<lparr> race := [] \<rparr>) (led_pg s) (led_coll s)
             (led_queue s) decoded of
        (response, coll', q') \<Rightarrow> s\<lparr> led_coll := coll', led_queue := q' \<rparr>)"
| "ledger_step s (DoProcess env n) =
     (if n < length (led_queue s) then
        (case Unmarshal (led_queue s ! n) of
           Inl err \<Rightarrow> s
         | Inr tx \<Rightarrow>
             (case ProcessTransaction env (led_pg s) (led_coll s) tx of
                (r, pg', coll') \<Rightarrow> s\<lparr> led_pg := pg', led_coll := coll' \<rparr>))
      else s)"

definition ledger_run :: "ledger_op list \<Rightarrow> ledger" where
  "ledger_run ops =
     foldl ledger_step \<lparr> led_pg = Map.empty, led_coll = [], led_queue = [] \<rparr> ops"

text \<open>
  The recorded pair of a transaction fits its own type and amount: the balance after is
  the float64 sum of the balance before and the signed amount, and is not negative.
\<close>

definition pair_ok :: "Transaction \<Rightarrow> bool" where
  "pair_ok d =
     (tx_BalanceAfter d =
        float64_add (tx_BalanceBefore d)
          (if tx_Type d = Withdrawal then - tx_Amount d else tx_Amount d)
      \<and> 0 \<le> tx_BalanceAfter d)"

definition ledger_inv :: "ledger \<Rightarrow> bool" where
  "ledger_inv s \<longleftrightarrow>
     distinct (map tx_ID (led_coll s))
   \<and> (\<forall>b \<in> set (led_queue s). \<exists>tx d. b = Json tx \<and> d \<in> set (led_coll s)
          \<and> tx_ID d = tx_ID tx \<and> tx_Type d = tx_Type tx \<and> tx_Amount d = tx_Amount tx)
   \<and> (\<forall>d \<in> set (led_coll s). tx_Status d = Completed \<longrightarrow> pair_ok d)"

section \<open>Concrete values for the examples\<close>

definition acct :: "string \<Rightarrow> real \<Rightarrow> Account" where
  "acct ident b = \<lparr> acc_ID = ident, acc_Balance = b, acc_CreatedAt = 0, acc_UpdatedAt = 0 \<rparr>"

definition mk_tx ::
  "string \<Rightarrow> string \<Rightarrow> TransactionType \<Rightarrow> real \<Rightarrow> TransactionStatus \<Rightarrow> string
     \<Rightarrow> Transaction" where
  "mk_tx ident account ty amount status reference =
     \<lparr> tx_ID = ident, tx_AccountID = account, tx_Type = ty, tx_Amount = amount,
       tx_Status = status, tx_Reference = reference, tx_BalanceBefore = 0,
       tx_BalanceAfter = 0, tx_CreatedAt = 0, tx_UpdatedAt = 0 \<rparr>"

definition mk_req :: "string \<Rightarrow> TransactionType \<Rightarrow> real \<Rightarrow> string \<Rightarrow> TransactionRequest" where
  "mk_req account ty amount reference =
     \<lparr> req_AccountID = account, req_Type = ty, req_Amount = amount,
       req_Reference = reference \<rparr>"

definition coll3 :: collection where
  "coll3 = [(mk_tx ''t1'' ''a'' Deposit 5 Completed ''r-1'')\<lparr> tx_CreatedAt := 1 \<rparr>,
            (mk_tx ''t2'' ''b'' Deposit 7 Pending ''r-2'')\<lparr> tx_CreatedAt := 2 \<rparr>,
            (mk_tx ''t3'' ''a'' Withdrawal 2 Pending ''r-3'')\<lparr> tx_CreatedAt := 3 \<rparr>]"

definition ds2 :: "body list" where
  "ds2 = [Garbage ''x'', Json (mk_tx ''t1'' ''a'' Deposit 50 Pending ''r-1'')]"

section \<open>Helper lemmas\<close>

lemmas const_defs = Deposit_def Withdrawal_def Pending_def Completed_def Failed_def

declare ilog2.simps [simp del]

lemma ilog2_bounds: "1 \<le> n \<Longrightarrow> 2 ^ ilog2 n \<le> n \<and> n < 2 ^ Suc (ilog2 n)"
proof (induction n rule: ilog2.induct)
  case (1 n)
  show ?case
  proof (cases "n < 2")
    case True
    with "1.prems" have "n = 1" by simp
    then show ?thesis by (simp add: ilog2.simps)
  next
    case False
    then have h: "1 \<le> n div 2" by simp
    from "1.IH" [OF False h]
    have lo: "2 ^ ilog2 (n div 2) \<le> n div 2" and hi: "n div 2 < 2 ^ Suc (ilog2 (n div 2))"
      by simp_all
    have e: "ilog2 n = Suc (ilog2 (n div 2))"
      using False by (subst ilog2.simps) simp
    from lo have "2 * 2 ^ ilog2 (n div 2) \<le> n" by linarith
    moreover from hi have "n < 2 * 2 ^ Suc (ilog2 (n div 2))" by linarith
    ultimately show ?thesis by (simp add: e)
  qed
qed

lemma expo_bounds:
  assumes "0 < x"
  shows "2 powi expo x \<le> x" and "x < 2 powi (expo x + 1)"
proof -
  have "2 powi expo x \<le> x \<and> x < 2 powi (expo x + 1)"
  proof (cases "1 \<le> x")
    case True
    define n where "n = nat \<lfloor>x\<rfloor>"
    from True have n1: "1 \<le> n" unfolding n_def by linarith
    have e: "expo x = int (ilog2 n)" using True by (simp add: expo_def n_def)
    from ilog2_bounds [OF n1] have lo: "2 ^ ilog2 n \<le> n" and hi: "n < 2 ^ Suc (ilog2 n)"
      by simp_all
    have nx: "real n \<le> x" "x < real n + 1" using True unfolding n_def by linarith+
    from lo have "(2::real) ^ ilog2 n \<le> real n"
      by (metis of_nat_le_iff of_nat_numeral of_nat_power)
    then have "(2::real) ^ ilog2 n \<le> x" using nx(1) by (rule order_trans)
    then have 1: "2 powi expo x \<le> x" by (simp add: e)
    from hi have "n + 1 \<le> 2 ^ Suc (ilog2 n)" by simp
    then have "real (n + 1) \<le> (2::real) ^ Suc (ilog2 n)"
      by (metis of_nat_le_iff of_nat_numeral of_nat_power)
    with nx have "x < 2 ^ Suc (ilog2 n)" by simp
    moreover have "expo x + 1 = int (Suc (ilog2 n))" by (simp add: e)
    ultimately have 2: "x < 2 powi (expo x + 1)" by (simp only: power_int_of_nat)
    from 1 2 show ?thesis by simp
  next
    case False
    define y where "y = 1 / x"
    define m where "m = nat \<lceil>y\<rceil>"
    from False assms have y1: "1 < y" unfolding y_def by simp
    then have m2: "2 \<le> m" unfolding m_def by linarith
    have my: "y \<le> real m" "real m - 1 < y" using y1 unfolding m_def by linarith+
    define c where "c = Suc (ilog2 (m - 1))"
    have e: "expo x = - int c" using False by (simp add: expo_def c_def m_def y_def)
    from m2 have "1 \<le> m - 1" by simp
    from ilog2_bounds [OF this] have lo: "2 ^ ilog2 (m - 1) \<le> m - 1" and hi: "m - 1 < 2 ^ c"
      by (simp_all add: c_def)
    from hi m2 have "m \<le> 2 ^ c" by simp
    then have "real m \<le> (2::real) ^ c"
      by (metis of_nat_le_iff of_nat_numeral of_nat_power)
    with my(1) have yc: "y \<le> 2 ^ c" by (rule order_trans)
    have "1 / 2 ^ c \<le> x"
    proof -
      from yc have "1 / x \<le> 2 ^ c" by (simp add: y_def)
      with assms have "1 \<le> 2 ^ c * x" by (simp add: field_simps)
      then show ?thesis by (simp add: field_simps)
    qed
    then have 1: "2 powi expo x \<le> x"
      by (simp add: e power_int_minus inverse_eq_divide)
    from lo have "real (2 ^ ilog2 (m - 1)) \<le> real (m - 1)"
      using of_nat_le_iff by blast
    then have "(2::real) ^ ilog2 (m - 1) \<le> real m - 1" using m2 by simp
    with my(2) have "2 ^ ilog2 (m - 1) < y" by (rule order_le_less_trans [rotated])
    then have "2 ^ ilog2 (m - 1) < 1 / x" by (simp add: y_def)
    with assms have "x * 2 ^ ilog2 (m - 1) < 1" by (simp add: field_simps)
    then have "x < 1 / 2 ^ ilog2 (m - 1)" by (simp add: field_simps)
    moreover have "expo x + 1 = - int (ilog2 (m - 1))" by (simp add: e c_def)
    ultimately have 2: "x < 2 powi (expo x + 1)"
      by (simp add: power_int_minus inverse_eq_divide)
    from 1 2 show ?thesis by simp
  qed
  then show "2 powi expo x \<le> x" and "x < 2 powi (expo x + 1)" by simp_all
qed

lemma ulp_pos: "0 < ulp x"
  by (simp add: ulp_def)

lemma ulp_bounds:
  assumes "x \<noteq> 0"
  shows "2 ^ 52 * ulp x \<le> \<bar>x\<bar>" and "\<bar>x\<bar> < 2 ^ 53 * ulp x"
proof -
  from assms have p: "0 < \<bar>x\<bar>" by simp
  have a: "(2::real) ^ 52 * 2 powi (expo \<bar>x\<bar> - 52) = 2 powi expo \<bar>x\<bar>"
    using power_int_add [of "2::real" 52 "expo \<bar>x\<bar> - 52"] by simp
  have b: "(2::real) ^ 53 * 2 powi (expo \<bar>x\<bar> - 52) = 2 powi (expo \<bar>x\<bar> + 1)"
    using power_int_add [of "2::real" 53 "expo \<bar>x\<bar> - 52"] by (simp add: add.commute)
  from expo_bounds [OF p] show "2 ^ 52 * ulp x \<le> \<bar>x\<bar>" and "\<bar>x\<bar> < 2 ^ 53 * ulp x"
    unfolding ulp_def a b by simp_all
qed

lemma round_half_even_near: "\<bar>of_int (round_half_even q) - q\<bar> \<le> 1 / 2"
  unfolding round_half_even_def Let_def by (auto simp: abs_if) linarith+

lemma round_half_even_of_int: "round_half_even (of_int m) = m"
  by (simp add: round_half_even_def)

lemma round64_zero: "round64 0 = 0"
  by (simp add: round64_def)

lemma round64_pos:
  assumes "0 < x"
  shows "0 < round64 x"
proof -
  from assms have nz: "x \<noteq> 0" by simp
  from ulp_bounds(1) [OF nz] assms have "2 ^ 52 * ulp x \<le> x" by simp
  then have "2 ^ 52 \<le> x / ulp x" using ulp_pos [of x] by (simp add: field_simps)
  then have "1 \<le> x / ulp x" by simp
  moreover have "\<bar>of_int (round_half_even (x / ulp x)) - x / ulp x\<bar> \<le> 1 / 2"
    by (rule round_half_even_near)
  ultimately have "(0::real) < of_int (round_half_even (x / ulp x))" by linarith
  then show ?thesis using ulp_pos [of x] nz by (simp add: round64_def)
qed

lemma round64_neg:
  assumes "x < 0"
  shows "round64 x < 0"
proof -
  from assms have nz: "x \<noteq> 0" by simp
  from ulp_bounds(1) [OF nz] assms have "2 ^ 52 * ulp x \<le> - x" by simp
  then have "x / ulp x \<le> - (2 ^ 52)" using ulp_pos [of x] by (simp add: field_simps)
  then have "x / ulp x \<le> - 1" by simp
  moreover have "\<bar>of_int (round_half_even (x / ulp x)) - x / ulp x\<bar> \<le> 1 / 2"
    by (rule round_half_even_near)
  ultimately have "of_int (round_half_even (x / ulp x)) < (0::real)" by linarith
  then show ?thesis using ulp_pos [of x] nz by (simp add: round64_def mult_neg_pos)
qed

lemma round64_less_zero_iff: "round64 x < 0 \<longleftrightarrow> x < 0"
proof (cases "x < 0")
  case True
  then show ?thesis by (simp add: round64_neg)
next
  case False
  then have "x = 0 \<or> 0 < x" by linarith
  then have "0 \<le> round64 x" using round64_pos [of x] by (auto simp: round64_zero)
  with False show ?thesis by simp
qed

lemma round64_error: "\<bar>round64 x - x\<bar> \<le> \<bar>x\<bar> / 2 ^ 53"
proof (cases "x = 0")
  case True
  then show ?thesis by (simp add: round64_zero)
next
  case False
  define q where "q = x / ulp x"
  have x: "x = q * ulp x" using ulp_pos [of x] by (simp add: q_def)
  have "round64 x - x = (of_int (round_half_even q) - q) * ulp x"
    using False by (simp add: round64_def q_def [symmetric] algebra_simps x [symmetric])
  then have "\<bar>round64 x - x\<bar> = \<bar>of_int (round_half_even q) - q\<bar> * ulp x"
    using ulp_pos [of x] by (simp add: abs_mult)
  also have "\<dots> \<le> 1 / 2 * ulp x"
    using round_half_even_near [of q] ulp_pos [of x] by (intro mult_right_mono) simp_all
  also have "\<dots> \<le> \<bar>x\<bar> / 2 ^ 53"
    using ulp_bounds(1) [OF False] by simp
  finally show ?thesis .
qed

lemma round64_exact:
  assumes x: "x = of_int m * 2 powi j" and m: "\<bar>m\<bar> < 2 ^ 53"
  shows "round64 x = x"
proof (cases "x = 0")
  case True
  then show ?thesis by (simp add: round64_zero)
next
  case False
  define e where "e = expo \<bar>x\<bar>"
  from False have p: "0 < \<bar>x\<bar>" by simp
  have "\<bar>x\<bar> = of_int \<bar>m\<bar> * 2 powi j" by (simp add: x abs_mult)
  also have "\<dots> < 2 ^ 53 * 2 powi j"
  proof -
    from m have "(of_int \<bar>m\<bar> :: real) < of_int (2 ^ 53)" by (simp only: of_int_less_iff)
    then have "(of_int \<bar>m\<bar> :: real) < 2 ^ 53" by simp
    then show ?thesis by (intro mult_strict_right_mono) simp_all
  qed
  also have "\<dots> = 2 powi (53 + j)"
    using power_int_add [of "2::real" 53 j] by simp
  finally have "\<bar>x\<bar> < 2 powi (53 + j)" .
  with expo_bounds(1) [OF p] have "(2::real) powi e < 2 powi (53 + j)"
    unfolding e_def by linarith
  then have "e < 53 + j"
  proof (rule contrapos_pp)
    assume "\<not> e < 53 + j"
    then have "53 + j \<le> e" by simp
    then have "(2::real) powi (53 + j) \<le> 2 powi e" by (intro power_int_increasing) simp_all
    then show "\<not> (2::real) powi e < 2 powi (53 + j)" by simp
  qed
  define k where "k = nat (j - (e - 52))"
  from \<open>e < 53 + j\<close> have k: "j = (e - 52) + int k" by (simp add: k_def)
  have u: "ulp x = 2 powi (e - 52)" by (simp add: ulp_def e_def)
  have "2 powi j = (2::real) powi (e - 52) * 2 ^ k"
    using power_int_add [of "2::real" "e - 52" "int k"] by (simp add: k)
  then have xe: "x = of_int (m * 2 ^ k) * 2 powi (e - 52)" by (simp add: x)
  have xu: "x = of_int (m * 2 ^ k) * ulp x" unfolding u by (rule xe)
  have q: "x / ulp x = of_int (m * 2 ^ k)"
  proof -
    have "x / ulp x = of_int (m * 2 ^ k) * ulp x / ulp x" using xu by simp
    also have "\<dots> = of_int (m * 2 ^ k)" using ulp_pos [of x] by simp
    finally show ?thesis .
  qed
  have "round64 x = of_int (round_half_even (x / ulp x)) * ulp x"
    using False by (simp add: round64_def)
  also have "\<dots> = of_int (m * 2 ^ k) * ulp x"
    unfolding q round_half_even_of_int ..
  also have "\<dots> = x" by (rule xu [symmetric])
  finally show ?thesis .
qed

lemma round64_of_int: "\<bar>m\<bar> < 2 ^ 53 \<Longrightarrow> round64 (of_int m) = of_int m"
  using round64_exact [of "of_int m" m 0] by simp

lemma round64_numeral [simp]:
  "(numeral n :: int) < 2 ^ 53 \<Longrightarrow> round64 (numeral n) = numeral n"
  using round64_of_int [of "numeral n"] by simp

lemma round64_neg_numeral [simp]:
  "(numeral n :: int) < 2 ^ 53 \<Longrightarrow> round64 (- numeral n) = - numeral n"
  using round64_of_int [of "- numeral n"] by simp

lemma round64_one [simp]: "round64 1 = 1"
  using round64_of_int [of 1] by simp

lemma round64_representable:
  "\<exists>m. \<bar>m\<bar> \<le> 2 ^ 53 \<and> round64 x = of_int m * ulp x"
proof (cases "x = 0")
  case True
  then show ?thesis by (intro exI [of _ 0]) (simp add: round64_zero)
next
  case False
  define q where "q = x / ulp x"
  from ulp_bounds(2) [OF False] have "\<bar>q\<bar> < 2 ^ 53"
    using ulp_pos [of x] by (simp add: q_def field_simps)
  moreover have "\<bar>of_int (round_half_even q) - q\<bar> \<le> 1 / 2" by (rule round_half_even_near)
  ultimately have "\<bar>of_int (round_half_even q) :: real\<bar> < 2 ^ 53 + 1" by linarith
  then have "(of_int \<bar>round_half_even q\<bar> :: real) < of_int (2 ^ 53 + 1)" by simp
  then have "\<bar>round_half_even q\<bar> < 2 ^ 53 + 1" by (simp only: of_int_less_iff)
  then have "\<bar>round_half_even q\<bar> \<le> 2 ^ 53" by simp
  then show ?thesis using False by (intro exI [of _ "round_half_even q"]) (simp add: round64_def q_def)
qed

text \<open>
  The float64 values nearest to 0.1, 0.2 and 0.3, and the float64 sum of the first two:
  it is the float64 next above the third, printed as 0.30000000000000004.
\<close>

lemma float64_add_tenths:
  "round64 (1 / 10) = 3602879701896397 / 2 ^ 55
   \<and> round64 (2 / 10) = 3602879701896397 / 2 ^ 54
   \<and> round64 (3 / 10) = 5404319552844595 / 2 ^ 54
   \<and> float64_add (3602879701896397 / 2 ^ 55) (3602879701896397 / 2 ^ 54)
       = 5404319552844596 / 2 ^ 54"
  by (simp add: float64_add_def round64_def ulp_def expo_def round_half_even_def
        ilog2.simps power_int_minus field_simps)

lemma find_UpdateOne:
  "(\<And>d. P (f d) = P d) \<Longrightarrow> find P (UpdateOne P f ds) = map_option f (find P ds)"
  by (induction ds) simp_all

lemma set_UpdateOne:
  "d \<in> set (UpdateOne P f ds) \<Longrightarrow> d \<in> set ds \<or> (\<exists>d' \<in> set ds. d = f d')"
  by (induction ds) (auto split: if_splits)

lemma UpdateAccountBalance_Inr:
  assumes "UpdateAccountBalance env pg ident d = (Inr (b, a), pg')"
  shows "\<exists>row. pg ident = Some row \<and> b = acc_Balance row \<and> a = float64_add b d \<and> 0 \<le> a
           \<and> pg' = pg(ident \<mapsto> row\<lparr> acc_Balance := a, acc_UpdatedAt := now env \<rparr>)"
  using assms
  by (auto simp: UpdateAccountBalance_def Let_def split: if_splits option.splits)

lemma ProcessTransaction_None:
  assumes "ProcessTransaction env pg coll tx = (None, pg', coll')"
  shows "\<exists>b a. UpdateAccountBalance env pg (tx_AccountID tx)
                 (if tx_Type tx = Withdrawal then - tx_Amount tx else tx_Amount tx)
               = (Inr (b, a), pg')
             \<and> coll' = UpdateOne (\<lambda>d. tx_ID d = tx_ID tx)
                 (\<lambda>d. d\<lparr> tx_Status := Completed, tx_BalanceBefore := b,
                       tx_BalanceAfter := a, tx_UpdatedAt := now env \<rparr>) coll"
  using assms
  by (auto simp: ProcessTransaction_def markTransactionFailed_def UpdateTransactionStatus_def
        Let_def split: sum.splits prod.splits option.splits if_splits)

lemma ProcessTransaction_Some:
  assumes "ProcessTransaction env pg coll tx = (Some e, pg', coll')"
  shows "coll' = coll \<or> coll' = UpdateOne (\<lambda>d. tx_ID d = tx_ID tx)
                 (\<lambda>d. d\<lparr> tx_Status := Failed, tx_BalanceBefore := 0,
                       tx_BalanceAfter := 0, tx_UpdatedAt := now env \<rparr>) coll"
  using assms
  by (auto simp: ProcessTransaction_def markTransactionFailed_def UpdateTransactionStatus_def
        Let_def split: sum.splits prod.splits option.splits if_splits)

lemma nonneg_UpdateAccountBalance:
  "nonneg pg \<Longrightarrow> nonneg (snd (UpdateAccountBalance env pg ident amount))"
  by (auto simp: nonneg_def UpdateAccountBalance_def Let_def split: option.splits)

lemma nonneg_CreateAccount:
  "nonneg pg \<Longrightarrow> nonneg (snd (AccountService_CreateAccount env pg b))"
  by (auto simp: nonneg_def AccountService_CreateAccount_def Postgres_CreateAccount_def Let_def
           split: option.splits if_splits)

lemma nonneg_apply_op: "nonneg pg \<Longrightarrow> nonneg (apply_op pg x)"
  by (cases x) (simp_all add: nonneg_UpdateAccountBalance nonneg_CreateAccount)

lemma nonneg_foldl: "nonneg pg \<Longrightarrow> nonneg (foldl apply_op pg ops)"
  by (induction ops arbitrary: pg) (simp_all add: nonneg_apply_op)

lemma UpdateAccountBalance_Inl:
  "UpdateAccountBalance env pg ident d = (Inl err, pg') \<Longrightarrow> pg' = pg"
  by (auto simp: UpdateAccountBalance_def Let_def split: if_splits option.splits)

lemma Atoi_Nil: "Atoi [] = None"
  by (simp add: Atoi_def)

lemma Atoi_zero: "Atoi ''0'' = Some 0"
  by (simp add: Atoi_def is_digit_def)

lemma length_SetSort: "length (SetSort docs) = length docs"
  by (simp add: SetSort_def)

lemma sorted_SetSort: "sorted_wrt (\<lambda>a b. tx_CreatedAt b \<le> tx_CreatedAt a) (SetSort docs)"
proof -
  have "sorted (map tx_CreatedAt (sort_key tx_CreatedAt docs))"
    by (rule sorted_sort_key)
  then have "sorted_wrt (\<lambda>a b. tx_CreatedAt a \<le> tx_CreatedAt b) (sort_key tx_CreatedAt docs)"
    by (simp add: sorted_map)
  then show ?thesis
    by (simp add: SetSort_def sorted_wrt_rev)
qed

lemma sorted_SetLimit:
  "sorted_wrt R docs \<Longrightarrow> sorted_wrt R (SetLimit limit docs)"
  by (simp add: SetLimit_def sorted_wrt_take)

lemma page_of_Handler:
  assumes "Handler_GetTransactions env coll accountID limitStr offsetStr
             = (200, TransactionList page)"
  shows "\<exists>limit. page = map full_response (SetLimit limit (drop
           (nat (if offsetStr \<noteq> [] then
                      (case Atoi offsetStr of
                         Some parsedOffset \<Rightarrow> if parsedOffset \<ge> 0 then parsedOffset else 0
                       | None \<Rightarrow> 0)
                    else 0))
           (SetSort (filter (\<lambda>d. tx_AccountID d = accountID) coll))))"
proof -
  define offset where "offset = (if offsetStr \<noteq> [] then
                      (case Atoi offsetStr of
                         Some parsedOffset \<Rightarrow> if parsedOffset \<ge> 0 then parsedOffset else 0
                       | None \<Rightarrow> 0)
                    else 0)"
  define limit where "limit = (if limitStr \<noteq> [] then
                     (case Atoi limitStr of
                        Some parsedLimit \<Rightarrow> if parsedLimit > 0 then parsedLimit else 10
                      | None \<Rightarrow> 10)
                   else 10)"
  from assms have "page = map full_response (SetLimit limit (drop (nat offset)
           (SetSort (filter (\<lambda>d. tx_AccountID d = accountID) coll))))"
    unfolding Handler_GetTransactions_def Let_def offset_def [symmetric] limit_def [symmetric]
    by (auto simp: TransactionService_GetTransactionsByAccountID_def
          MongoDB_GetTransactionsByAccountID_def split: sum.splits if_splits)
  then show ?thesis
    unfolding offset_def by blast
qed

lemma takeWhile_until_old:
  "b \<in> set xs \<Longrightarrow> takeWhile (\<lambda>x. x \<noteq> b) (xs @ ys) = takeWhile (\<lambda>x. x \<noteq> b) xs"
  by (induction xs) auto

lemma takeWhile_until_new:
  "b \<notin> set xs \<Longrightarrow> takeWhile (\<lambda>x. x \<noteq> b) (xs @ [b]) = xs"
  by (induction xs) auto

lemma precedes_append_old:
  "b \<in> set xs \<Longrightarrow> precedes a b (xs @ ys) = precedes a b xs"
  by (simp add: precedes_def takeWhile_until_old)

lemma precedes_snoc_new:
  "b \<notin> set xs \<Longrightarrow> precedes a b (xs @ [b]) = (a \<in> set xs)"
  by (simp add: precedes_def takeWhile_until_new)

lemma precedes_snoc:
  "precedes a b xs \<Longrightarrow> precedes a b (xs @ ys)"
  unfolding precedes_def by (induction xs) (auto split: if_splits)

lemma precedes_in: "precedes a b xs \<Longrightarrow> a \<in> set xs"
  unfolding precedes_def by (rule set_takeWhileD [THEN conjunct1])

lemma drop_Cons_nth:
  assumes "drop n ds = b # bs"
  shows "n < length ds \<and> ds ! n = b \<and> drop (Suc n) ds = bs"
proof -
  from assms have lt: "n < length ds" by (cases "n < length ds") auto
  from Cons_nth_drop_Suc [OF lt] assms show ?thesis using lt by simp
qed

lemma sys_invI:
  assumes "next_tag s \<le> length ds" "pending s = drop (next_tag s) ds"
    "\<And>e. e \<in> set (trace s) \<Longrightarrow> tag_of e < next_tag s"
    "\<And>t. Rejected t \<in> set (trace s) \<Longrightarrow> isl (Unmarshal (ds ! t))"
    "\<And>t. Handed t \<in> set (trace s) \<Longrightarrow> \<not> isl (Unmarshal (ds ! t))"
    "\<And>t. Acked t \<in> set (trace s) \<Longrightarrow> precedes (Handed t) (Acked t) (trace s)"
    "\<And>t. Handed t \<in> set (trace s) \<Longrightarrow> Acked t \<in> set (trace s) \<or> consumer s = CAck t"
    "\<And>t tx. consumer s = CSend t tx \<Longrightarrow>
         Suc t = next_tag s \<and> Unmarshal (ds ! t) = Inr tx \<and> Handed t \<notin> set (trace s)"
    "\<And>t. consumer s = CAck t \<Longrightarrow> Handed t \<in> set (trace s) \<and> Acked t \<notin> set (trace s)"
    "\<And>t tx. processor s = PProcess t tx \<Longrightarrow> Handed t \<in> set (trace s)"
    "\<And>t r. Processed t r \<in> set (trace s) \<Longrightarrow>
         precedes (Handed t) (Processed t r) (trace s)"
  shows "sys_inv ds s"
  unfolding sys_inv_def using assms by blast

lemma sys_invD:
  assumes "sys_inv ds s"
  shows "next_tag s \<le> length ds" and "pending s = drop (next_tag s) ds"
    and "\<And>e. e \<in> set (trace s) \<Longrightarrow> tag_of e < next_tag s"
    and "\<And>t. Rejected t \<in> set (trace s) \<Longrightarrow> isl (Unmarshal (ds ! t))"
    and "\<And>t. Handed t \<in> set (trace s) \<Longrightarrow> \<not> isl (Unmarshal (ds ! t))"
    and "\<And>t. Acked t \<in> set (trace s) \<Longrightarrow> precedes (Handed t) (Acked t) (trace s)"
    and "\<And>t. Handed t \<in> set (trace s) \<Longrightarrow> Acked t \<in> set (trace s) \<or> consumer s = CAck t"
    and "\<And>t tx. consumer s = CSend t tx \<Longrightarrow>
         Suc t = next_tag s \<and> Unmarshal (ds ! t) = Inr tx \<and> Handed t \<notin> set (trace s)"
    and "\<And>t. consumer s = CAck t \<Longrightarrow> Handed t \<in> set (trace s) \<and> Acked t \<notin> set (trace s)"
    and "\<And>t tx. processor s = PProcess t tx \<Longrightarrow> Handed t \<in> set (trace s)"
    and "\<And>t r. Processed t r \<in> set (trace s) \<Longrightarrow>
         precedes (Handed t) (Processed t r) (trace s)"
  using assms unfolding sys_inv_def by blast+

lemma sys_inv_start: "sys_inv ds (start ds pg coll)"
  by (simp add: sys_inv_def start_def)

lemma sys_inv_deliver:
  assumes i: "sys_inv ds s" and c: "consumer s = CSelect"
  shows "sys_inv ds (deliver s)"
proof (cases "pending s")
  case Nil
  with i show ?thesis by (simp add: deliver_def)
next
  case (Cons b bs)
  note D = sys_invD [OF i]
  from Cons D(2) have "drop (next_tag s) ds = b # bs" by simp
  from drop_Cons_nth [OF this]
  have n: "next_tag s < length ds" "ds ! next_tag s = b" "drop (Suc (next_tag s)) ds = bs"
    by simp_all
  show ?thesis
  proof (cases "Unmarshal b")
    case (Inl err)
    then have d: "deliver s = s\<lparr> pending := bs, next_tag := Suc (next_tag s),
                            trace := trace s @ [Rejected (next_tag s)] \<rparr>"
      by (simp add: deliver_def Cons)
    show ?thesis
      unfolding d
      apply (rule sys_invI; simp)
      subgoal using n(1) by simp
      subgoal using n(3) by simp
      subgoal for e using D(3) [of e] by (auto simp: less_Suc_eq)
      subgoal for t using D(4) [of t] n(2) Inl by auto
      subgoal for t using D(5) [of t] by simp
      subgoal for t using D(6) [of t] by (simp add: precedes_append_old)
      subgoal for t using D(7) [of t] by simp
      subgoal for t tx using c by simp
      subgoal for t using c by simp
      subgoal for t tx using D(10) [of t tx] by simp
      subgoal for t r using D(11) [of t r] by (simp add: precedes_append_old)
      done
  next
    case (Inr tx)
    then have d: "deliver s = s\<lparr> pending := bs, next_tag := Suc (next_tag s),
                           consumer := CSend (next_tag s) tx \<rparr>"
      by (simp add: deliver_def Cons)
    have fresh: "Handed (next_tag s) \<notin> set (trace s)"
    proof
      assume "Handed (next_tag s) \<in> set (trace s)"
      from D(3) [OF this] show False by simp
    qed
    show ?thesis
      unfolding d
      apply (rule sys_invI; simp)
      subgoal using n(1) by simp
      subgoal using n(3) by simp
      subgoal for e using D(3) [of e] by (auto simp: less_Suc_eq)
      subgoal for t using D(4) [of t] by simp
      subgoal for t using D(5) [of t] by simp
      subgoal for t using D(6) [of t] by simp
      subgoal for t using D(7) [of t] c by simp
      subgoal using n(2) Inr fresh by simp
      subgoal for t tx using D(10) [of t tx] by simp
      subgoal for t r using D(11) [of t r] by simp
      done
  qed
qed

lemma sys_inv_handoff:
  assumes i: "sys_inv ds s" and c: "consumer s = CSend t tx"
  shows "sys_inv ds (s\<lparr> consumer := CAck t, processor := PProcess t tx,
                          trace := trace s @ [Handed t] \<rparr>)"
proof -
  note D = sys_invD [OF i]
  from D(8) [OF c] have h: "Suc t = next_tag s" "Unmarshal (ds ! t) = Inr tx"
      "Handed t \<notin> set (trace s)"
    by simp_all
  have a: "Acked t \<notin> set (trace s)"
  proof
    assume "Acked t \<in> set (trace s)"
    from D(6) [OF this] have "Handed t \<in> set (trace s)" by (rule precedes_in)
    with h(3) show False by simp
  qed
  show ?thesis
    apply (rule sys_invI; simp)
    subgoal using D(1) by simp
    subgoal using D(2) by simp
    subgoal for e using D(3) [of e] h(1) by auto
    subgoal for u using D(4) [of u] by simp
    subgoal for u using D(5) [of u] h(2) by auto
    subgoal for u using D(6) [of u] by (simp add: precedes_append_old)
    subgoal for u using D(7) [of u] c by auto
    subgoal using a by simp
    subgoal for u r using D(11) [of u r] by (simp add: precedes_append_old)
    done
qed

lemma sys_inv_ack:
  assumes i: "sys_inv ds s" and c: "consumer s = CAck t"
  shows "sys_inv ds (s\<lparr> consumer := CSelect, trace := trace s @ [Acked t] \<rparr>)"
proof -
  note D = sys_invD [OF i]
  from D(9) [OF c] have h: "Handed t \<in> set (trace s)" "Acked t \<notin> set (trace s)"
    by simp_all
  show ?thesis
    apply (rule sys_invI; simp)
    subgoal using D(1) by simp
    subgoal using D(2) by simp
    subgoal for e using D(3) [of e] D(3) [OF h(1)] by auto
    subgoal for u using D(4) [of u] by simp
    subgoal for u using D(5) [of u] by simp
    subgoal for u using D(6) [of u] h
      by (cases "u = t") (simp_all add: precedes_snoc_new precedes_append_old)
    subgoal for u using D(7) [of u] c by auto
    subgoal for u tx using D(10) [of u tx] by simp
    subgoal for u r using D(11) [of u r] by (simp add: precedes_append_old)
    done
qed

lemma sys_inv_process:
  assumes i: "sys_inv ds s" and p: "processor s = PProcess t tx"
  shows "sys_inv ds (s\<lparr> processor := PSelect, sys_pg := pg', sys_coll := coll',
                  trace := trace s @ [Processed t r] \<rparr>)"
proof -
  note D = sys_invD [OF i]
  from D(10) [OF p] have h: "Handed t \<in> set (trace s)" .
  show ?thesis
    apply (rule sys_invI; simp)
    subgoal using D(1) by simp
    subgoal using D(2) by simp
    subgoal for e using D(3) [of e] D(3) [OF h] by auto
    subgoal for u using D(4) [of u] by simp
    subgoal for u using D(5) [of u] by simp
    subgoal for u using D(6) [of u] by (simp add: precedes_append_old)
    subgoal for u using D(7) [of u] by simp
    subgoal for u tx' using D(8) [of u tx'] by simp
    subgoal for u using D(9) [of u] by simp
    subgoal for u r' using D(11) [of u r'] h
      by (cases "Processed u r' \<in> set (trace s)")
         (auto simp add: precedes_snoc_new precedes_append_old)
    done
qed

lemma sys_inv_consumer_return:
  assumes i: "sys_inv ds s" and c: "consumer s = CSelect"
  shows "sys_inv ds (s\<lparr> consumer := CReturned \<rparr>)"
proof -
  note D = sys_invD [OF i]
  show ?thesis
    apply (rule sys_invI; simp)
    subgoal using D(1) by simp
    subgoal using D(2) by simp
    subgoal for e using D(3) [of e] by simp
    subgoal for u using D(4) [of u] by simp
    subgoal for u using D(5) [of u] by simp
    subgoal for u using D(6) [of u] by simp
    subgoal for u using D(7) [of u] c by simp
    subgoal for u tx using D(10) [of u tx] by simp
    subgoal for u r using D(11) [of u r] by simp
    done
qed

lemma sys_inv_frame:
  assumes i: "sys_inv ds s"
    and "pending s' = pending s" "next_tag s' = next_tag s" "consumer s' = consumer s"
        "trace s' = trace s"
    and "processor s' = processor s \<or> (processor s = PSelect \<and> processor s' = PReturned)"
  shows "sys_inv ds s'"
proof -
  note D = sys_invD [OF i]
  show ?thesis
    apply (rule sys_invI; simp add: assms(2-5))
    subgoal using D(1) by simp
    subgoal using D(2) by simp
    subgoal for e using D(3) [of e] by simp
    subgoal for u using D(4) [of u] by simp
    subgoal for u using D(5) [of u] by simp
    subgoal for u using D(6) [of u] by simp
    subgoal for u using D(7) [of u] by simp
    subgoal for u tx using D(8) [of u tx] by simp
    subgoal for u using D(9) [of u] by simp
    subgoal for u tx using D(10) [of u tx] assms(6) by auto
    subgoal for u r using D(11) [of u r] by simp
    done
qed

lemma sys_inv_exec: "sys_inv ds s \<Longrightarrow> sys_inv ds (exec s a)"
proof (cases a)
  case Deliver
  assume "sys_inv ds s" with Deliver show ?thesis by (simp add: sys_inv_deliver)
next
  case ConsumerReturn
  assume "sys_inv ds s" with ConsumerReturn show ?thesis by (simp add: sys_inv_consumer_return)
next
  case Handoff
  assume "sys_inv ds s" with Handoff show ?thesis
    by (auto simp: sys_inv_handoff split: cstate.splits pstate.splits)
next
  case Ack
  assume "sys_inv ds s" with Ack show ?thesis
    by (auto simp: sys_inv_ack split: cstate.splits)
next
  case (Process env)
  assume "sys_inv ds s" with Process show ?thesis
    by (auto simp: sys_inv_process split: pstate.splits prod.splits)
next
  case ProcessorReturn
  assume i: "sys_inv ds s"
  show ?thesis
    unfolding ProcessorReturn
    by (rule sys_inv_frame [OF i]) auto
next
  case Cancel
  assume i: "sys_inv ds s"
  show ?thesis unfolding Cancel by (rule sys_inv_frame [OF i]) auto
next
  case CloseMsgs
  assume i: "sys_inv ds s"
  show ?thesis unfolding CloseMsgs by (rule sys_inv_frame [OF i]) auto
qed

lemma sys_inv_foldl: "sys_inv ds s \<Longrightarrow> sys_inv ds (foldl exec s schedule)"
  by (induction schedule arbitrary: s) (simp_all add: sys_inv_exec)

lemma sys_inv_run: "sys_inv ds (run (start ds pg coll) schedule)"
  unfolding run_def by (rule sys_inv_foldl) (rule sys_inv_start)

lemma same_control_exec:
  assumes "same_control s s'" "shape a = shape a'"
  shows "same_control (exec s a) (exec s' a')"
  using assms
  by (cases a; cases a')
     (auto simp: same_control_def deliver_def
           split: list.splits sum.splits cstate.splits pstate.splits prod.splits)

lemma same_control_foldl:
  "same_control s s' \<Longrightarrow> map shape schedule = map shape schedule' \<Longrightarrow>
   same_control (foldl exec s schedule) (foldl exec s' schedule')"
proof (induction schedule arbitrary: s s' schedule')
  case Nil
  then show ?case by simp
next
  case (Cons a schedule)
  then obtain a' rest where s': "schedule' = a' # rest" "shape a = shape a'"
      "map shape schedule = map shape rest"
    by (cases schedule') auto
  from Cons.prems(1) s'(2) have "same_control (exec s a) (exec s' a')"
    by (rule same_control_exec)
  from Cons.IH [OF this s'(3)] show ?case by (simp add: s'(1))
qed

lemma same_control_start: "same_control (start ds pg coll) (start ds pg' coll')"
  by (simp add: same_control_def start_def)

lemma map_ID_UpdateOne:
  "(\<And>d. tx_ID (f d) = tx_ID d) \<Longrightarrow> map tx_ID (UpdateOne P f ds) = map tx_ID ds"
  by (induction ds) simp_all

lemma set_UpdateOne_source:
  "d' \<in> set (UpdateOne P f ds) \<Longrightarrow> d' \<in> set ds \<or> (\<exists>d0 \<in> set ds. P d0 \<and> d' = f d0)"
  by (induction ds) (auto split: if_splits)

lemma in_UpdateOne:
  "d \<in> set ds \<Longrightarrow> d \<in> set (UpdateOne P f ds) \<or> f d \<in> set (UpdateOne P f ds)"
  by (induction ds) auto

lemma distinct_ID_unique:
  assumes "distinct (map tx_ID ds)" "d \<in> set ds" "d' \<in> set ds" "tx_ID d = tx_ID d'"
  shows "d = d'"
  using assms by (meson distinct_map inj_on_def)

lemma ProcessTransaction_cases:
  assumes "ProcessTransaction env pg coll tx = (r, pg', coll')"
  shows "coll' = coll
       \<or> coll' = UpdateOne (\<lambda>d. tx_ID d = tx_ID tx)
                 (\<lambda>d. d\<lparr> tx_Status := Failed, tx_BalanceBefore := 0,
                       tx_BalanceAfter := 0, tx_UpdatedAt := now env \<rparr>) coll
       \<or> (\<exists>b a. 0 \<le> a
              \<and> a = float64_add b (if tx_Type tx = Withdrawal then - tx_Amount tx
                                     else tx_Amount tx)
              \<and> coll' = UpdateOne (\<lambda>d. tx_ID d = tx_ID tx)
                 (\<lambda>d. d\<lparr> tx_Status := Completed, tx_BalanceBefore := b,
                       tx_BalanceAfter := a, tx_UpdatedAt := now env \<rparr>) coll)"
proof (cases r)
  case None
  with assms obtain b a where
    upd: "UpdateAccountBalance env pg (tx_AccountID tx)
            (if tx_Type tx = Withdrawal then - tx_Amount tx else tx_Amount tx)
          = (Inr (b, a), pg')"
    and c: "coll' = UpdateOne (\<lambda>d. tx_ID d = tx_ID tx)
                 (\<lambda>d. d\<lparr> tx_Status := Completed, tx_BalanceBefore := b,
                       tx_BalanceAfter := a, tx_UpdatedAt := now env \<rparr>) coll"
    using ProcessTransaction_None by blast
  from UpdateAccountBalance_Inr [OF upd] have
    "0 \<le> a" "a = float64_add b (if tx_Type tx = Withdrawal then - tx_Amount tx
                                     else tx_Amount tx)"
    by auto
  with c show ?thesis by blast
next
  case (Some e)
  with assms show ?thesis using ProcessTransaction_Some by blast
qed

lemma MongoDB_CreateTransaction_cases:
  assumes "MongoDB_CreateTransaction env coll tx = (r, coll', tx')"
  shows "tx_Status tx' = tx_Status tx
       \<and> (case r of
             Some e \<Rightarrow> coll' = coll
           | None \<Rightarrow> coll' = coll @ [tx'] \<and> tx_ID tx' \<notin> tx_ID ` set coll)"
proof -
  define tx2 where "tx2 = (if tx_ID tx = [] then tx\<lparr> tx_ID := uuid_id env \<rparr> else tx)
                            \<lparr> tx_CreatedAt := now env, tx_UpdatedAt := now env \<rparr>"
  have st: "tx_Status tx2 = tx_Status tx" by (simp add: tx2_def)
  have d: "MongoDB_CreateTransaction env coll tx =
     (if mongo_insert_err env
        then (Some (Wrap ''failed to insert transaction'' ErrUnavailable), coll, tx2)
      else if (\<exists>d \<in> set coll. tx_ID d = tx_ID tx2 \<or> tx_Reference d = tx_Reference tx2)
        then (Some (Wrap ''failed to insert transaction'' ErrDuplicateKey), coll, tx2)
      else (None, coll @ [tx2], tx2))"
    by (simp add: MongoDB_CreateTransaction_def Let_def tx2_def)
  show ?thesis
  proof (cases "mongo_insert_err env")
    case True
    with assms d st show ?thesis by auto
  next
    case False
    show ?thesis
    proof (cases "\<exists>d \<in> set coll. tx_ID d = tx_ID tx2 \<or> tx_Reference d = tx_Reference tx2")
      case True
      with False assms d st show ?thesis by auto
    next
      case dup: False
      with False assms d have "r = None" "coll' = coll @ [tx2]" "tx' = tx2" by auto
      moreover from dup have "tx_ID tx2 \<notin> tx_ID ` set coll" by force
      ultimately show ?thesis using st by simp
    qed
  qed
qed

lemma CreateTransaction_cases:
  assumes run: "TransactionService_CreateTransaction env coll q req = (r, coll', q')"
      and race: "race env = []"
  shows "(coll' = coll \<and> q' = q)
       \<or> (\<exists>t. tx_ID t \<notin> tx_ID ` set coll \<and> tx_Status t = Pending \<and> coll' = coll @ [t]
              \<and> (q' = q \<or> q' = q @ [Json t]))"
proof -
  define reference where
    "reference = (if req_Reference req = [] then uuid_reference env else req_Reference req)"
  define tx where "tx = \<lparr> tx_ID = [], tx_AccountID = req_AccountID req,
                         tx_Type = req_Type req, tx_Amount = req_Amount req,
                         tx_Status = Pending, tx_Reference = reference,
                         tx_BalanceBefore = 0, tx_BalanceAfter = 0,
                         tx_CreatedAt = 0, tx_UpdatedAt = 0 \<rparr>"
  have st: "tx_Status tx = Pending" by (simp add: tx_def)
  show ?thesis
  proof (cases "MongoDB_GetTransactionByReference env coll reference")
    case (Inl err)
    with run show ?thesis
      by (simp add: TransactionService_CreateTransaction_def reference_def [symmetric])
  next
    case (Inr found)
    show ?thesis
    proof (cases found)
      case (Some existingTx)
      with Inr run show ?thesis
        by (simp add: TransactionService_CreateTransaction_def reference_def [symmetric])
    next
      case None
      obtain e c2 t where ins: "MongoDB_CreateTransaction env coll tx = (e, c2, t)"
        by (cases "MongoDB_CreateTransaction env coll tx") auto
      from MongoDB_CreateTransaction_cases [OF ins] st have t: "tx_Status t = Pending"
        and c2: "case e of Some e' \<Rightarrow> c2 = coll
                 | None \<Rightarrow> c2 = coll @ [t] \<and> tx_ID t \<notin> tx_ID ` set coll"
        by simp_all
      from run Inr None ins race
      have r: "(r, coll', q') =
          (case e of
             Some err \<Rightarrow> (Inl (Wrap ''Failed to create transaction'' err), c2, q)
           | None \<Rightarrow>
               (case PublishTransaction env q t of
                  (Some err, q2) \<Rightarrow> (Inl (Wrap ''failed to queue transaction'' err), c2, q2)
                | (None, q2) \<Rightarrow> (Inr t, c2, q2)))"
        by (simp add: TransactionService_CreateTransaction_def reference_def [symmetric]
              Let_def tx_def [symmetric] split: option.splits prod.splits)
      show ?thesis
      proof (cases e)
        case (Some err)
        with r c2 show ?thesis by simp
      next
        case n: None
        with c2 have c: "c2 = coll @ [t]" "tx_ID t \<notin> tx_ID ` set coll" by simp_all
        from r n have "coll' = c2 \<and> (q' = q \<or> q' = q @ [Json t])"
          by (auto simp: PublishTransaction_def split: if_splits)
        with c t show ?thesis by blast
      qed
    qed
  qed
qed

lemma Handler_CreateTransaction_cases:
  assumes "Handler_CreateTransaction env pg coll q decoded = (response, coll', q')"
      and "race env = []"
  shows "(coll' = coll \<and> q' = q)
       \<or> (\<exists>t. tx_ID t \<notin> tx_ID ` set coll \<and> tx_Status t = Pending \<and> coll' = coll @ [t]
              \<and> (q' = q \<or> q' = q @ [Json t]))"
proof (cases decoded)
  case None
  with assms show ?thesis by (simp add: Handler_CreateTransaction_def)
next
  case (Some req)
  show ?thesis
  proof (cases "AccountService_GetAccount env pg (req_AccountID req)")
    case (Inl err)
    with Some assms show ?thesis by (simp add: Handler_CreateTransaction_def)
  next
    case (Inr account)
    obtain r c2 q2 where c: "TransactionService_CreateTransaction env coll q req = (r, c2, q2)"
      by (cases "TransactionService_CreateTransaction env coll q req") auto
    with Some Inr assms(1) have "coll' = c2" "q' = q2"
      by (auto simp: Handler_CreateTransaction_def split: sum.splits)
    with CreateTransaction_cases [OF c assms(2)] show ?thesis by simp
  qed
qed


lemma ledger_invI:
  assumes "distinct (map tx_ID (led_coll s))"
      and "\<And>b. b \<in> set (led_queue s) \<Longrightarrow>
             \<exists>tx d. b = Json tx \<and> d \<in> set (led_coll s)
               \<and> tx_ID d = tx_ID tx \<and> tx_Type d = tx_Type tx \<and> tx_Amount d = tx_Amount tx"
      and "\<And>d. d \<in> set (led_coll s) \<Longrightarrow> tx_Status d = Completed \<Longrightarrow> pair_ok d"
  shows "ledger_inv s"
  using assms unfolding ledger_inv_def by blast

lemma ledger_invD:
  assumes "ledger_inv s"
  shows "distinct (map tx_ID (led_coll s))"
    and "\<And>b. b \<in> set (led_queue s) \<Longrightarrow>
             \<exists>tx d. b = Json tx \<and> d \<in> set (led_coll s)
               \<and> tx_ID d = tx_ID tx \<and> tx_Type d = tx_Type tx \<and> tx_Amount d = tx_Amount tx"
    and "\<And>d. d \<in> set (led_coll s) \<Longrightarrow> tx_Status d = Completed \<Longrightarrow> pair_ok d"
  using assms unfolding ledger_inv_def by blast+

lemma ledger_inv_init: "ledger_inv \<lparr> led_pg = Map.empty, led_coll = [], led_queue = [] \<rparr>"
  by (simp add: ledger_inv_def)

lemma ledger_inv_pg: "ledger_inv s \<Longrightarrow> ledger_inv (s\<lparr> led_pg := pg' \<rparr>)"
  by (simp add: ledger_inv_def)

lemma ledger_inv_insert:
  assumes inv: "ledger_inv s"
      and fresh: "tx_ID t \<notin> tx_ID ` set (led_coll s)"
      and pending: "tx_Status t = Pending"
      and q: "q' = led_queue s \<or> q' = led_queue s @ [Json t]"
  shows "ledger_inv (s\<lparr> led_coll := led_coll s @ [t], led_queue := q' \<rparr>)"
proof (rule ledger_invI)
  from ledger_invD(1) [OF inv] fresh
  show "distinct (map tx_ID (led_coll (s\<lparr> led_coll := led_coll s @ [t], led_queue := q' \<rparr>)))"
    by simp
next
  fix b assume "b \<in> set (led_queue (s\<lparr> led_coll := led_coll s @ [t], led_queue := q' \<rparr>))"
  with q have "b \<in> set (led_queue s) \<or> b = Json t" by auto
  then show "\<exists>tx d. b = Json tx
       \<and> d \<in> set (led_coll (s\<lparr> led_coll := led_coll s @ [t], led_queue := q' \<rparr>))
       \<and> tx_ID d = tx_ID tx \<and> tx_Type d = tx_Type tx \<and> tx_Amount d = tx_Amount tx"
  proof
    assume "b \<in> set (led_queue s)"
    from ledger_invD(2) [OF inv this] show ?thesis by auto
  next
    assume "b = Json t"
    then show ?thesis by auto
  qed
next
  fix d
  assume d: "d \<in> set (led_coll (s\<lparr> led_coll := led_coll s @ [t], led_queue := q' \<rparr>))"
     and c: "tx_Status d = Completed"
  have "Pending \<noteq> Completed" by (simp add: const_defs)
  with d c pending have "d \<in> set (led_coll s)" by auto
  from ledger_invD(3) [OF inv this c] show "pair_ok d" .
qed

lemma ledger_inv_UpdateOne:
  assumes inv: "ledger_inv s"
      and f: "\<And>d. tx_ID (f d) = tx_ID d \<and> tx_Type (f d) = tx_Type d
                   \<and> tx_Amount (f d) = tx_Amount d"
      and ok: "\<And>d. d \<in> set (led_coll s) \<Longrightarrow> P d \<Longrightarrow> tx_Status (f d) = Completed
                   \<Longrightarrow> pair_ok (f d)"
  shows "ledger_inv (s\<lparr> led_pg := pg', led_coll := UpdateOne P f (led_coll s) \<rparr>)"
proof (rule ledger_invI)
  from f have "map tx_ID (UpdateOne P f (led_coll s)) = map tx_ID (led_coll s)"
    by (simp add: map_ID_UpdateOne)
  with ledger_invD(1) [OF inv]
  show "distinct (map tx_ID
          (led_coll (s\<lparr> led_pg := pg', led_coll := UpdateOne P f (led_coll s) \<rparr>)))"
    by simp
next
  fix b
  assume "b \<in> set (led_queue (s\<lparr> led_pg := pg', led_coll := UpdateOne P f (led_coll s) \<rparr>))"
  then have "b \<in> set (led_queue s)" by simp
  from ledger_invD(2) [OF inv this] obtain tx d where
    b: "b = Json tx" and d: "d \<in> set (led_coll s)"
    and e: "tx_ID d = tx_ID tx" "tx_Type d = tx_Type tx" "tx_Amount d = tx_Amount tx"
    by blast
  from in_UpdateOne [OF d, of P f]
  have "d \<in> set (UpdateOne P f (led_coll s)) \<or> f d \<in> set (UpdateOne P f (led_coll s))" .
  then show "\<exists>tx d. b = Json tx
       \<and> d \<in> set (led_coll (s\<lparr> led_pg := pg', led_coll := UpdateOne P f (led_coll s) \<rparr>))
       \<and> tx_ID d = tx_ID tx \<and> tx_Type d = tx_Type tx \<and> tx_Amount d = tx_Amount tx"
  proof
    assume "d \<in> set (UpdateOne P f (led_coll s))"
    with b e show ?thesis by auto
  next
    assume "f d \<in> set (UpdateOne P f (led_coll s))"
    moreover from f e have "tx_ID (f d) = tx_ID tx" "tx_Type (f d) = tx_Type tx"
      "tx_Amount (f d) = tx_Amount tx" by simp_all
    ultimately show ?thesis using b by auto
  qed
next
  fix d
  assume "d \<in> set (led_coll (s\<lparr> led_pg := pg', led_coll := UpdateOne P f (led_coll s) \<rparr>))"
     and c: "tx_Status d = Completed"
  then have "d \<in> set (UpdateOne P f (led_coll s))" by simp
  from set_UpdateOne_source [OF this]
  show "pair_ok d"
  proof
    assume "d \<in> set (led_coll s)"
    from ledger_invD(3) [OF inv this c] show ?thesis .
  next
    assume "\<exists>d0 \<in> set (led_coll s). P d0 \<and> d = f d0"
    then obtain d0 where "d0 \<in> set (led_coll s)" "P d0" "d = f d0" by blast
    with ok [of d0] c show ?thesis by simp
  qed
qed

lemma ledger_inv_process:
  assumes inv: "ledger_inv s"
      and msg: "Json tx \<in> set (led_queue s)"
      and run: "ProcessTransaction env (led_pg s) (led_coll s) tx = (r, pg', coll')"
  shows "ledger_inv (s\<lparr> led_pg := pg', led_coll := coll' \<rparr>)"
proof -
  from ledger_invD(2) [OF inv msg] obtain d1 where
    d1: "d1 \<in> set (led_coll s)" "tx_ID d1 = tx_ID tx" "tx_Type d1 = tx_Type tx"
        "tx_Amount d1 = tx_Amount tx"
    by auto
  have same: "tx_Type d = tx_Type tx \<and> tx_Amount d = tx_Amount tx"
    if "d \<in> set (led_coll s)" "tx_ID d = tx_ID tx" for d
  proof -
    from distinct_ID_unique [OF ledger_invD(1) [OF inv] that(1) d1(1)] that(2) d1(2)
    have "d = d1" by simp
    with d1 show ?thesis by simp
  qed
  have cf: "Failed \<noteq> Completed" by (simp add: const_defs)
  from ProcessTransaction_cases [OF run]
  consider (same) "coll' = led_coll s"
    | (failed) "coll' = UpdateOne (\<lambda>d. tx_ID d = tx_ID tx)
                 (\<lambda>d. d\<lparr> tx_Status := Failed, tx_BalanceBefore := 0,
                       tx_BalanceAfter := 0, tx_UpdatedAt := now env \<rparr>) (led_coll s)"
    | (completed) b a where "0 \<le> a"
        "a = float64_add b (if tx_Type tx = Withdrawal then - tx_Amount tx else tx_Amount tx)"
        "coll' = UpdateOne (\<lambda>d. tx_ID d = tx_ID tx)
                 (\<lambda>d. d\<lparr> tx_Status := Completed, tx_BalanceBefore := b,
                       tx_BalanceAfter := a, tx_UpdatedAt := now env \<rparr>) (led_coll s)"
    by blast
  then show ?thesis
  proof cases
    case same
    have "s\<lparr> led_pg := pg', led_coll := led_coll s \<rparr> = s\<lparr> led_pg := pg' \<rparr>" by simp
    with same ledger_inv_pg [OF inv, of pg'] show ?thesis by simp
  next
    case failed
    show ?thesis unfolding failed
      by (rule ledger_inv_UpdateOne [OF inv]) (simp_all add: cf)
  next
    case completed
    show ?thesis unfolding completed(3)
    proof (rule ledger_inv_UpdateOne [OF inv])
      fix d
      show "tx_ID (d\<lparr> tx_Status := Completed, tx_BalanceBefore := b,
                       tx_BalanceAfter := a, tx_UpdatedAt := now env \<rparr>) = tx_ID d
          \<and> tx_Type (d\<lparr> tx_Status := Completed, tx_BalanceBefore := b,
                       tx_BalanceAfter := a, tx_UpdatedAt := now env \<rparr>) = tx_Type d
          \<and> tx_Amount (d\<lparr> tx_Status := Completed, tx_BalanceBefore := b,
                       tx_BalanceAfter := a, tx_UpdatedAt := now env \<rparr>) = tx_Amount d"
        by simp
    next
      fix d assume "d \<in> set (led_coll s)" "tx_ID d = tx_ID tx"
      from same [OF this] completed(1,2)
      show "pair_ok (d\<lparr> tx_Status := Completed, tx_BalanceBefore := b,
                       tx_BalanceAfter := a, tx_UpdatedAt := now env \<rparr>)"
        by (simp add: pair_ok_def)
    qed
  qed
qed

lemma ledger_inv_step: "ledger_inv s \<Longrightarrow> ledger_inv (ledger_step s x)"
proof (cases x)
  case (DoCreateAccount env initialBalance)
  assume "ledger_inv s"
  with DoCreateAccount show ?thesis by (simp add: ledger_inv_pg)
next
  case (DoSubmit env decoded)
  assume inv: "ledger_inv s"
  obtain response coll' q' where
    h: "Handler_CreateTransaction (env\<lparr> race := [] \<rparr>) (led_pg s) (led_coll s) (led_queue s)
          decoded = (response, coll', q')"
    by (cases "Handler_CreateTransaction (env\<lparr> race := [] \<rparr>) (led_pg s) (led_coll s)
                 (led_queue s) decoded") auto
  have step: "ledger_step s x = s\<lparr> led_coll := coll', led_queue := q' \<rparr>"
    by (simp add: DoSubmit h)
  have "race (env\<lparr> race := [] \<rparr>) = []" by simp
  from Handler_CreateTransaction_cases [OF h this]
  show ?thesis
  proof
    assume "coll' = led_coll s \<and> q' = led_queue s"
    then have "s\<lparr> led_coll := coll', led_queue := q' \<rparr> = s" by simp
    with inv step show ?thesis by simp
  next
    assume "\<exists>t. tx_ID t \<notin> tx_ID ` set (led_coll s) \<and> tx_Status t = Pending
              \<and> coll' = led_coll s @ [t]
              \<and> (q' = led_queue s \<or> q' = led_queue s @ [Json t])"
    then obtain t where t: "tx_ID t \<notin> tx_ID ` set (led_coll s)" "tx_Status t = Pending"
      "coll' = led_coll s @ [t]" "q' = led_queue s \<or> q' = led_queue s @ [Json t]"
      by blast
    from ledger_inv_insert [OF inv t(1,2,4)] step t(3) show ?thesis by simp
  qed
next
  case (DoProcess env n)
  assume inv: "ledger_inv s"
  show ?thesis
  proof (cases "n < length (led_queue s)")
    case False
    with DoProcess inv show ?thesis by simp
  next
    case True
    show ?thesis
    proof (cases "led_queue s ! n")
      case (Garbage g)
      with True DoProcess inv show ?thesis by (simp add: Unmarshal_def)
    next
      case (Json tx)
      with True have msg: "Json tx \<in> set (led_queue s)" by (metis nth_mem)
      obtain r pg' coll' where
        run: "ProcessTransaction env (led_pg s) (led_coll s) tx = (r, pg', coll')"
        by (cases "ProcessTransaction env (led_pg s) (led_coll s) tx") auto
      from True Json run DoProcess
      have "ledger_step s x = s\<lparr> led_pg := pg', led_coll := coll' \<rparr>"
        by (simp add: Unmarshal_def)
      with ledger_inv_process [OF inv msg run] show ?thesis by simp
    qed
  qed
qed

lemma ledger_inv_foldl: "ledger_inv s \<Longrightarrow> ledger_inv (foldl ledger_step s ops)"
  by (induction ops arbitrary: s) (simp_all add: ledger_inv_step)

lemma ledger_inv_run: "ledger_inv (ledger_run ops)"
  unfolding ledger_run_def by (rule ledger_inv_foldl [OF ledger_inv_init])

lemma ProcessTransaction_pair:
  assumes run: "ProcessTransaction env pg coll tx = (None, pg', coll')"
      and old: "find (\<lambda>d. tx_ID d = tx_ID tx) coll = Some old"
  shows "\<exists>new row.
              find (\<lambda>d. tx_ID d = tx_ID tx) coll' = Some new
            \<and> tx_Status new = Completed
            \<and> tx_Type new = tx_Type old \<and> tx_Amount new = tx_Amount old
            \<and> pg (tx_AccountID tx) = Some row
            \<and> tx_BalanceBefore new = acc_Balance row
            \<and> UpdateAccountBalance env pg (tx_AccountID tx)
                 (if tx_Type tx = Withdrawal then - tx_Amount tx else tx_Amount tx)
                = (Inr (tx_BalanceBefore new, tx_BalanceAfter new), pg')
            \<and> tx_BalanceAfter new =
                 float64_add (tx_BalanceBefore new)
                   (if tx_Type tx = Withdrawal then - tx_Amount tx else tx_Amount tx)
            \<and> 0 \<le> tx_BalanceAfter new"
proof -
  from run obtain b a where
    upd: "UpdateAccountBalance env pg (tx_AccountID tx)
            (if tx_Type tx = Withdrawal then - tx_Amount tx else tx_Amount tx)
          = (Inr (b, a), pg')"
    and coll': "coll' = UpdateOne (\<lambda>d. tx_ID d = tx_ID tx)
                 (\<lambda>d. d\<lparr> tx_Status := Completed, tx_BalanceBefore := b,
                       tx_BalanceAfter := a, tx_UpdatedAt := now env \<rparr>) coll"
    using ProcessTransaction_None by blast
  from UpdateAccountBalance_Inr [OF upd] obtain row where
    row: "pg (tx_AccountID tx) = Some row" "b = acc_Balance row"
         "a = float64_add b (if tx_Type tx = Withdrawal then - tx_Amount tx else tx_Amount tx)"
         "0 \<le> a"
    by blast
  let ?new = "old\<lparr> tx_Status := Completed, tx_BalanceBefore := b,
                       tx_BalanceAfter := a, tx_UpdatedAt := now env \<rparr>"
  have f: "find (\<lambda>d. tx_ID d = tx_ID tx) coll' = Some ?new"
    unfolding coll' by (subst find_UpdateOne) (simp_all add: old)
  show ?thesis
    by (rule exI [of _ ?new], rule exI [of _ row]) (use f row upd in simp)
qed

lemma ProcessTransaction_error_completes_nothing:
  assumes run: "ProcessTransaction env pg coll tx = (Some e, pg', coll')"
      and d: "d \<in> set coll'" "tx_Status d = Completed"
  shows "d \<in> set coll"
proof -
  from run have c: "coll' = coll \<or> coll' = UpdateOne (\<lambda>d. tx_ID d = tx_ID tx)
                 (\<lambda>d. d\<lparr> tx_Status := Failed, tx_BalanceBefore := 0,
                       tx_BalanceAfter := 0, tx_UpdatedAt := now env \<rparr>) coll"
    using ProcessTransaction_Some by blast
  have cf: "Completed \<noteq> Failed" by (simp add: const_defs)
  from c show ?thesis
  proof
    assume "coll' = coll" with d show ?thesis by simp
  next
    assume "coll' = UpdateOne (\<lambda>d. tx_ID d = tx_ID tx)
                 (\<lambda>d. d\<lparr> tx_Status := Failed, tx_BalanceBefore := 0,
                       tx_BalanceAfter := 0, tx_UpdatedAt := now env \<rparr>) coll"
    with d(1) have "d \<in> set coll
          \<or> (\<exists>d' \<in> set coll. d = d'\<lparr> tx_Status := Failed, tx_BalanceBefore := 0,
                       tx_BalanceAfter := 0, tx_UpdatedAt := now env \<rparr>)"
      using set_UpdateOne by blast
    with d(2) cf show ?thesis by auto
  qed
qed

lemma pair_ok_cases:
  assumes "pair_ok d"
  shows "(tx_Type d = Deposit \<longrightarrow>
            tx_BalanceAfter d = float64_add (tx_BalanceBefore d) (tx_Amount d)
          \<and> \<bar>tx_BalanceAfter d - (tx_BalanceBefore d + tx_Amount d)\<bar>
              \<le> \<bar>tx_BalanceBefore d + tx_Amount d\<bar> / 2 ^ 53)
       \<and> (tx_Type d = Withdrawal \<longrightarrow>
            tx_BalanceAfter d = float64_add (tx_BalanceBefore d) (- tx_Amount d)
          \<and> 0 \<le> tx_BalanceAfter d
          \<and> \<bar>tx_BalanceAfter d - (tx_BalanceBefore d - tx_Amount d)\<bar>
              \<le> \<bar>tx_BalanceBefore d - tx_Amount d\<bar> / 2 ^ 53)"
proof -
  have dw: "Deposit \<noteq> Withdrawal" by (simp add: const_defs)
  have e1: "\<bar>float64_add (tx_BalanceBefore d) (tx_Amount d)
              - (tx_BalanceBefore d + tx_Amount d)\<bar>
            \<le> \<bar>tx_BalanceBefore d + tx_Amount d\<bar> / 2 ^ 53"
    unfolding float64_add_def by (rule round64_error)
  have e2: "\<bar>float64_add (tx_BalanceBefore d) (- tx_Amount d)
              - (tx_BalanceBefore d - tx_Amount d)\<bar>
            \<le> \<bar>tx_BalanceBefore d - tx_Amount d\<bar> / 2 ^ 53"
    using round64_error [of "tx_BalanceBefore d + - tx_Amount d"]
    by (simp add: float64_add_def)
  from assms dw e1 e2 show ?thesis by (auto simp: pair_ok_def)
qed

section \<open>The balance mutation\<close>




text \<open>
  Claim C3. \<open>AccountService.CreateAccount\<close> answers a negative initial balance with an
  error and creates nothing; an \<open>UpdateAccountBalance\<close> that would take a balance below
  zero returns an error and leaves the table alone; and after any sequence of account
  creations and balance updates, under any environments, every balance in the committed
  table is at least 0.
\<close>

theorem balance_never_negative:
  "(initialBalance < 0 \<longrightarrow>
      AccountService_CreateAccount env pg initialBalance =
        (Inl (New ''initial balance cannot be negative''), pg))
   \<and> (pg ident = Some row \<and> acc_Balance row + d < 0 \<longrightarrow>
        (\<exists>e. UpdateAccountBalance env pg ident d = (Inl e, pg)))
   \<and> (committed ops ident' = Some row' \<longrightarrow> 0 \<le> acc_Balance row')"
proof (intro conjI impI)
  assume "initialBalance < 0"
  then show "AccountService_CreateAccount env pg initialBalance =
        (Inl (New ''initial balance cannot be negative''), pg)"
    by (simp add: AccountService_CreateAccount_def)
next
  assume "pg ident = Some row \<and> acc_Balance row + d < 0"
  then show "\<exists>e. UpdateAccountBalance env pg ident d = (Inl e, pg)"
    by (simp add: UpdateAccountBalance_def float64_add_def round64_less_zero_iff Let_def)
next
  assume c: "committed ops ident' = Some row'"
  have "nonneg (committed ops)"
    unfolding committed_def by (rule nonneg_foldl) (simp add: nonneg_def)
  with c show "0 \<le> acc_Balance row'"
    by (simp add: nonneg_def)
qed

theorem balance_never_negative_witness:
  "AccountService_CreateAccount calm [''a'' \<mapsto> acct ''a'' 100] (- 1)
     = (Inl (New ''initial balance cannot be negative''), [''a'' \<mapsto> acct ''a'' 100])
   \<and> (\<exists>e. UpdateAccountBalance calm [''a'' \<mapsto> acct ''a'' 100] ''a'' (- 130)
           = (Inl e, [''a'' \<mapsto> acct ''a'' 100]))
   \<and> committed [OpCreateAccount calm 100, OpApplyDelta (calm\<lparr> now := 5 \<rparr>) ''uuid-i'' (- 30),
                 OpApplyDelta calm ''uuid-i'' (- 100)] ''uuid-i''
       = Some \<lparr> acc_ID = ''uuid-i'', acc_Balance = 70, acc_CreatedAt = 0, acc_UpdatedAt = 5 \<rparr>
   \<and> (0::real) \<le> acc_Balance \<lparr> acc_ID = ''uuid-i'', acc_Balance = 70, acc_CreatedAt = 0,
                                acc_UpdatedAt = 5 \<rparr>"
proof -
  have c: "committed [OpCreateAccount calm 100,
                      OpApplyDelta (calm\<lparr> now := 5 \<rparr>) ''uuid-i'' (- 30),
                      OpApplyDelta calm ''uuid-i'' (- 100)] ''uuid-i''
       = Some \<lparr> acc_ID = ''uuid-i'', acc_Balance = 70, acc_CreatedAt = 0, acc_UpdatedAt = 5 \<rparr>"
    by (simp add: committed_def AccountService_CreateAccount_def Postgres_CreateAccount_def
          UpdateAccountBalance_def float64_add_def calm_def Let_def)
  show ?thesis
    using c balance_never_negative
             [where initialBalance = "- 1" and env = calm
                and pg = "[''a'' \<mapsto> acct ''a'' 100]"
                and ident = "''a''" and row = "acct ''a'' 100" and d = "- 130"
                and ops = "[OpCreateAccount calm 100,
                            OpApplyDelta (calm\<lparr> now := 5 \<rparr>) ''uuid-i'' (- 30),
                            OpApplyDelta calm ''uuid-i'' (- 100)]"
                and ident' = "''uuid-i''"
                and row' = "\<lparr> acc_ID = ''uuid-i'', acc_Balance = 70, acc_CreatedAt = 0,
                              acc_UpdatedAt = 5 \<rparr>"]
    by (simp add: acct_def)
qed

section \<open>Submitting a transaction\<close>

text \<open>
  Claim C2. When the collection already holds a transaction under the request's
  reference (the request's own, or the generated one when the request has none),
  \<open>TransactionService.CreateTransaction\<close> leaves the collection and the queue as they
  were, whatever the environment does, and, unless the look-up itself fails, returns that
  stored transaction as it is.
\<close>

theorem CreateTransaction_replay:
  assumes "find (\<lambda>d. tx_Reference d =
              (if req_Reference req = [] then uuid_reference env else req_Reference req)) coll
           = Some existingTx"
  shows "snd (TransactionService_CreateTransaction env coll q req) = (coll, q)
       \<and> (\<not> mongo_find_err env \<longrightarrow>
            TransactionService_CreateTransaction env coll q req = (Inr existingTx, coll, q))
       \<and> existingTx \<in> set coll
       \<and> tx_Reference existingTx =
            (if req_Reference req = [] then uuid_reference env else req_Reference req)"
proof -
  from assms have "existingTx \<in> set coll \<and> tx_Reference existingTx =
            (if req_Reference req = [] then uuid_reference env else req_Reference req)"
    by (auto simp: find_Some_iff simp del: One_nat_def)
  with assms show ?thesis
    by (simp add: TransactionService_CreateTransaction_def
         MongoDB_GetTransactionByReference_def Let_def)
qed

theorem CreateTransaction_replay_witness:
  "find (\<lambda>d. tx_Reference d = ''r-1'') [mk_tx ''t1'' ''a'' Deposit 5 Completed ''r-1'']
     = Some (mk_tx ''t1'' ''a'' Deposit 5 Completed ''r-1'')
   \<and> TransactionService_CreateTransaction calm
        [mk_tx ''t1'' ''a'' Deposit 5 Completed ''r-1''] [] (mk_req ''a'' Deposit 5 ''r-1'')
     = (Inr (mk_tx ''t1'' ''a'' Deposit 5 Completed ''r-1''),
        [mk_tx ''t1'' ''a'' Deposit 5 Completed ''r-1''], [])"
  using CreateTransaction_replay
          [of "mk_req ''a'' Deposit 5 ''r-1''" calm
              "[mk_tx ''t1'' ''a'' Deposit 5 Completed ''r-1'']"
              "mk_tx ''t1'' ''a'' Deposit 5 Completed ''r-1''" "[]"]
  by (simp add: mk_tx_def mk_req_def calm_def)

section \<open>Processing a transaction\<close>

text \<open>
  Claim C4, as stated, fails: the recorded balance after is the float64 sum of the
  balance before and the signed amount, not the exact one. A deposit of 1 is processed
  for an account that holds \<open>2 ^ 53 = 9007199254740992\<close>: the transaction is finalized
  as completed with the pair \<open>(2 ^ 53, 2 ^ 53)\<close>, so the balance after is not the balance
  before plus the amount. The same record is reached from the empty ledger by creating
  the account, submitting the deposit and processing its message.
\<close>

theorem completed_pair_exact_sum_counterexample:
  "ProcessTransaction calm [''a'' \<mapsto> acct ''a'' 9007199254740992]
      [mk_tx ''t1'' ''a'' Deposit 1 Pending ''r-1'']
      (mk_tx ''t1'' ''a'' Deposit 1 Pending ''r-1'')
    = (None, [''a'' \<mapsto> acct ''a'' 9007199254740992],
       [(mk_tx ''t1'' ''a'' Deposit 1 Completed ''r-1'')
          \<lparr> tx_BalanceBefore := 9007199254740992, tx_BalanceAfter := 9007199254740992 \<rparr>])
   \<and> led_coll (ledger_run
        [DoCreateAccount (calm\<lparr> uuid_id := ''a'' \<rparr>) 9007199254740992,
         DoSubmit (calm\<lparr> uuid_id := ''t1'' \<rparr>) (Some (mk_req ''a'' Deposit 1 ''r-1'')),
         DoProcess calm 0])
      = [(mk_tx ''t1'' ''a'' Deposit 1 Completed ''r-1'')
          \<lparr> tx_BalanceBefore := 9007199254740992, tx_BalanceAfter := 9007199254740992 \<rparr>]
   \<and> (9007199254740992 :: real) \<noteq> 9007199254740992 + 1"
proof -
  have f: "float64_add 9007199254740992 1 = 9007199254740992"
    by (simp add: float64_add_def round64_def ulp_def expo_def round_half_even_def
          ilog2.simps)
  have 1: "ProcessTransaction calm [''a'' \<mapsto> acct ''a'' 9007199254740992]
      [mk_tx ''t1'' ''a'' Deposit 1 Pending ''r-1'']
      (mk_tx ''t1'' ''a'' Deposit 1 Pending ''r-1'')
    = (None, [''a'' \<mapsto> acct ''a'' 9007199254740992],
       [(mk_tx ''t1'' ''a'' Deposit 1 Completed ''r-1'')
          \<lparr> tx_BalanceBefore := 9007199254740992, tx_BalanceAfter := 9007199254740992 \<rparr>])"
    by (simp add: ProcessTransaction_def Postgres_GetAccount_def UpdateAccountBalance_def f
          UpdateTransactionStatus_def mk_tx_def acct_def calm_def Let_def const_defs)
  have 2: "led_coll (ledger_run
        [DoCreateAccount (calm\<lparr> uuid_id := ''a'' \<rparr>) 9007199254740992,
         DoSubmit (calm\<lparr> uuid_id := ''t1'' \<rparr>) (Some (mk_req ''a'' Deposit 1 ''r-1'')),
         DoProcess calm 0])
      = [(mk_tx ''t1'' ''a'' Deposit 1 Completed ''r-1'')
          \<lparr> tx_BalanceBefore := 9007199254740992, tx_BalanceAfter := 9007199254740992 \<rparr>]"
    by (simp add: ledger_run_def AccountService_CreateAccount_def Postgres_CreateAccount_def
          Handler_CreateTransaction_def AccountService_GetAccount_def
          TransactionService_CreateTransaction_def MongoDB_GetTransactionByReference_def
          MongoDB_CreateTransaction_def PublishTransaction_def Unmarshal_def
          ProcessTransaction_def Postgres_GetAccount_def UpdateAccountBalance_def f
          UpdateTransactionStatus_def mk_tx_def mk_req_def acct_def calm_def Let_def const_defs)
  from 1 2 show ?thesis by simp
qed

text \<open>
  Claim C4, amended. Let \<open>ProcessTransaction\<close> run on a message whose transaction is in
  the collection. If it returns no error (the one path that writes the status completed),
  the stored transaction is then completed, keeps its type and amount, and carries exactly
  the pair that the committed \<open>UpdateAccountBalance\<close> returned; when the stored
  transaction has the type and the amount of the message, that pair fits the recorded
  transaction's own type and amount: the balance after is the float64 sum of the balance
  before and the amount for a deposit, and of the balance before and the negated amount,
  not below zero, for a withdrawal. If it returns an error, every completed transaction
  of the collection was there before.

  For the ledger as a whole, after any sequence of account creations, submissions and
  processed messages: the identifiers of the collection are distinct, every message of
  the queue has the identifier, type and amount of a stored transaction, and every
  completed transaction of the collection carries a pair that fits its own type and
  amount in this sense, the balance after differing from the exact sum or difference by
  at most its \<open>2 ^ 53\<close>-th part. A float64 sum is the exact sum whenever the exact sum
  has a significand of at most 53 bits.
\<close>

theorem completed_pair_float64:
  assumes run: "ProcessTransaction env pg coll tx = (r, pg', coll')"
      and old: "find (\<lambda>d. tx_ID d = tx_ID tx) coll = Some old"
  shows "(r = None \<longrightarrow>
           (\<exists>new row.
              find (\<lambda>d. tx_ID d = tx_ID tx) coll' = Some new
            \<and> tx_Status new = Completed
            \<and> tx_Type new = tx_Type old \<and> tx_Amount new = tx_Amount old
            \<and> pg (tx_AccountID tx) = Some row
            \<and> tx_BalanceBefore new = acc_Balance row
            \<and> UpdateAccountBalance env pg (tx_AccountID tx)
                 (if tx_Type tx = Withdrawal then - tx_Amount tx else tx_Amount tx)
                = (Inr (tx_BalanceBefore new, tx_BalanceAfter new), pg')
            \<and> (tx_Type old = tx_Type tx \<and> tx_Amount old = tx_Amount tx \<longrightarrow>
                 (tx_Type new = Deposit \<longrightarrow>
                    tx_BalanceAfter new = float64_add (tx_BalanceBefore new) (tx_Amount new))
               \<and> (tx_Type new = Withdrawal \<longrightarrow>
                    tx_BalanceAfter new
                      = float64_add (tx_BalanceBefore new) (- tx_Amount new)
                  \<and> 0 \<le> tx_BalanceAfter new))))
       \<and> (r \<noteq> None \<longrightarrow> (\<forall>d \<in> set coll'. tx_Status d = Completed \<longrightarrow> d \<in> set coll))
       \<and> distinct (map tx_ID (led_coll (ledger_run ops)))
       \<and> (\<forall>b \<in> set (led_queue (ledger_run ops)).
            \<exists>m d. b = Json m \<and> d \<in> set (led_coll (ledger_run ops))
              \<and> tx_ID d = tx_ID m \<and> tx_Type d = tx_Type m \<and> tx_Amount d = tx_Amount m)
       \<and> (\<forall>d \<in> set (led_coll (ledger_run ops)). tx_Status d = Completed \<longrightarrow>
            (tx_Type d = Deposit \<longrightarrow>
               tx_BalanceAfter d = float64_add (tx_BalanceBefore d) (tx_Amount d)
             \<and> \<bar>tx_BalanceAfter d - (tx_BalanceBefore d + tx_Amount d)\<bar>
                 \<le> \<bar>tx_BalanceBefore d + tx_Amount d\<bar> / 2 ^ 53)
          \<and> (tx_Type d = Withdrawal \<longrightarrow>
               tx_BalanceAfter d = float64_add (tx_BalanceBefore d) (- tx_Amount d)
             \<and> 0 \<le> tx_BalanceAfter d
             \<and> \<bar>tx_BalanceAfter d - (tx_BalanceBefore d - tx_Amount d)\<bar>
                 \<le> \<bar>tx_BalanceBefore d - tx_Amount d\<bar> / 2 ^ 53))
       \<and> (x + y = of_int k * 2 powi j \<and> \<bar>k\<bar> < 2 ^ 53 \<longrightarrow> float64_add x y = x + y)"
proof -
  have 1: "r = None \<longrightarrow>
           (\<exists>new row.
              find (\<lambda>d. tx_ID d = tx_ID tx) coll' = Some new
            \<and> tx_Status new = Completed
            \<and> tx_Type new = tx_Type old \<and> tx_Amount new = tx_Amount old
            \<and> pg (tx_AccountID tx) = Some row
            \<and> tx_BalanceBefore new = acc_Balance row
            \<and> UpdateAccountBalance env pg (tx_AccountID tx)
                 (if tx_Type tx = Withdrawal then - tx_Amount tx else tx_Amount tx)
                = (Inr (tx_BalanceBefore new, tx_BalanceAfter new), pg')
            \<and> (tx_Type old = tx_Type tx \<and> tx_Amount old = tx_Amount tx \<longrightarrow>
                 (tx_Type new = Deposit \<longrightarrow>
                    tx_BalanceAfter new = float64_add (tx_BalanceBefore new) (tx_Amount new))
               \<and> (tx_Type new = Withdrawal \<longrightarrow>
                    tx_BalanceAfter new
                      = float64_add (tx_BalanceBefore new) (- tx_Amount new)
                  \<and> 0 \<le> tx_BalanceAfter new)))"
  proof
    assume "r = None"
    with run have run': "ProcessTransaction env pg coll tx = (None, pg', coll')" by simp
    have dw: "Deposit \<noteq> Withdrawal" by (simp add: const_defs)
    from ProcessTransaction_pair [OF run' old] obtain new row where
      n: "find (\<lambda>d. tx_ID d = tx_ID tx) coll' = Some new"
         "tx_Status new = Completed"
         "tx_Type new = tx_Type old" "tx_Amount new = tx_Amount old"
         "pg (tx_AccountID tx) = Some row"
         "tx_BalanceBefore new = acc_Balance row"
         "UpdateAccountBalance env pg (tx_AccountID tx)
                 (if tx_Type tx = Withdrawal then - tx_Amount tx else tx_Amount tx)
                = (Inr (tx_BalanceBefore new, tx_BalanceAfter new), pg')"
         "tx_BalanceAfter new =
                 float64_add (tx_BalanceBefore new)
                   (if tx_Type tx = Withdrawal then - tx_Amount tx else tx_Amount tx)"
         "0 \<le> tx_BalanceAfter new"
      by blast
    have "tx_Type old = tx_Type tx \<and> tx_Amount old = tx_Amount tx \<longrightarrow>
                 (tx_Type new = Deposit \<longrightarrow>
                    tx_BalanceAfter new = float64_add (tx_BalanceBefore new) (tx_Amount new))
               \<and> (tx_Type new = Withdrawal \<longrightarrow>
                    tx_BalanceAfter new
                      = float64_add (tx_BalanceBefore new) (- tx_Amount new)
                  \<and> 0 \<le> tx_BalanceAfter new)"
      using n(3,4,8,9) dw by auto
    with n(1-7) show "\<exists>new row.
              find (\<lambda>d. tx_ID d = tx_ID tx) coll' = Some new
            \<and> tx_Status new = Completed
            \<and> tx_Type new = tx_Type old \<and> tx_Amount new = tx_Amount old
            \<and> pg (tx_AccountID tx) = Some row
            \<and> tx_BalanceBefore new = acc_Balance row
            \<and> UpdateAccountBalance env pg (tx_AccountID tx)
                 (if tx_Type tx = Withdrawal then - tx_Amount tx else tx_Amount tx)
                = (Inr (tx_BalanceBefore new, tx_BalanceAfter new), pg')
            \<and> (tx_Type old = tx_Type tx \<and> tx_Amount old = tx_Amount tx \<longrightarrow>
                 (tx_Type new = Deposit \<longrightarrow>
                    tx_BalanceAfter new = float64_add (tx_BalanceBefore new) (tx_Amount new))
               \<and> (tx_Type new = Withdrawal \<longrightarrow>
                    tx_BalanceAfter new
                      = float64_add (tx_BalanceBefore new) (- tx_Amount new)
                  \<and> 0 \<le> tx_BalanceAfter new))"
      by blast
  qed
  have 2: "r \<noteq> None \<longrightarrow> (\<forall>d \<in> set coll'. tx_Status d = Completed \<longrightarrow> d \<in> set coll)"
    using run ProcessTransaction_error_completes_nothing by blast
  note inv = ledger_inv_run [of ops]
  have 3: "distinct (map tx_ID (led_coll (ledger_run ops)))"
    by (rule ledger_invD(1) [OF inv])
  have 4: "\<forall>b \<in> set (led_queue (ledger_run ops)).
            \<exists>m d. b = Json m \<and> d \<in> set (led_coll (ledger_run ops))
              \<and> tx_ID d = tx_ID m \<and> tx_Type d = tx_Type m \<and> tx_Amount d = tx_Amount m"
    using ledger_invD(2) [OF inv] by blast
  have 5: "\<forall>d \<in> set (led_coll (ledger_run ops)). tx_Status d = Completed \<longrightarrow>
            (tx_Type d = Deposit \<longrightarrow>
               tx_BalanceAfter d = float64_add (tx_BalanceBefore d) (tx_Amount d)
             \<and> \<bar>tx_BalanceAfter d - (tx_BalanceBefore d + tx_Amount d)\<bar>
                 \<le> \<bar>tx_BalanceBefore d + tx_Amount d\<bar> / 2 ^ 53)
          \<and> (tx_Type d = Withdrawal \<longrightarrow>
               tx_BalanceAfter d = float64_add (tx_BalanceBefore d) (- tx_Amount d)
             \<and> 0 \<le> tx_BalanceAfter d
             \<and> \<bar>tx_BalanceAfter d - (tx_BalanceBefore d - tx_Amount d)\<bar>
                 \<le> \<bar>tx_BalanceBefore d - tx_Amount d\<bar> / 2 ^ 53)"
  proof (intro ballI impI)
    fix d assume "d \<in> set (led_coll (ledger_run ops))" "tx_Status d = Completed"
    from pair_ok_cases [OF ledger_invD(3) [OF inv this]]
    show "(tx_Type d = Deposit \<longrightarrow>
               tx_BalanceAfter d = float64_add (tx_BalanceBefore d) (tx_Amount d)
             \<and> \<bar>tx_BalanceAfter d - (tx_BalanceBefore d + tx_Amount d)\<bar>
                 \<le> \<bar>tx_BalanceBefore d + tx_Amount d\<bar> / 2 ^ 53)
          \<and> (tx_Type d = Withdrawal \<longrightarrow>
               tx_BalanceAfter d = float64_add (tx_BalanceBefore d) (- tx_Amount d)
             \<and> 0 \<le> tx_BalanceAfter d
             \<and> \<bar>tx_BalanceAfter d - (tx_BalanceBefore d - tx_Amount d)\<bar>
                 \<le> \<bar>tx_BalanceBefore d - tx_Amount d\<bar> / 2 ^ 53)" .
  qed
  have 6: "x + y = of_int k * 2 powi j \<and> \<bar>k\<bar> < 2 ^ 53 \<longrightarrow> float64_add x y = x + y"
    unfolding float64_add_def using round64_exact [of "x + y" k j] by blast
  from 1 2 3 4 5 6 show ?thesis by (intro conjI)
qed

theorem completed_pair_float64_witness:
  "ProcessTransaction (calm\<lparr> now := 9 \<rparr>) [''a'' \<mapsto> acct ''a'' 100]
      [mk_tx ''t1'' ''a'' Withdrawal 30 Pending ''r-1'']
      (mk_tx ''t1'' ''a'' Withdrawal 30 Pending ''r-1'')
    = (None, [''a'' \<mapsto> (acct ''a'' 100)\<lparr> acc_Balance := 70, acc_UpdatedAt := 9 \<rparr>],
       [(mk_tx ''t1'' ''a'' Withdrawal 30 Pending ''r-1'')
          \<lparr> tx_Status := Completed, tx_BalanceBefore := 100, tx_BalanceAfter := 70,
            tx_UpdatedAt := 9 \<rparr>])
   \<and> (\<exists>new. find (\<lambda>d. tx_ID d = ''t1'')
          [(mk_tx ''t1'' ''a'' Withdrawal 30 Pending ''r-1'')
            \<lparr> tx_Status := Completed, tx_BalanceBefore := 100, tx_BalanceAfter := 70,
              tx_UpdatedAt := 9 \<rparr>] = Some new
        \<and> tx_Status new = Completed \<and> tx_Type new = Withdrawal \<and> tx_Amount new = 30
        \<and> tx_BalanceAfter new = float64_add (tx_BalanceBefore new) (- tx_Amount new)
        \<and> 0 \<le> tx_BalanceAfter new)
   \<and> float64_add 100 (- 30) = 70
   \<and> ProcessTransaction calm [''a'' \<mapsto> acct ''a'' 100]
      [mk_tx ''t0'' ''a'' Deposit 1 Completed ''r-0'',
       mk_tx ''t3'' ''a'' Withdrawal 500 Pending ''r-3'']
      (mk_tx ''t3'' ''a'' Withdrawal 500 Pending ''r-3'')
    = (Some (Wrap ''failed to update balance'' (New ''insufficient funds'')),
       [''a'' \<mapsto> acct ''a'' 100],
       [mk_tx ''t0'' ''a'' Deposit 1 Completed ''r-0'',
        mk_tx ''t3'' ''a'' Withdrawal 500 Failed ''r-3''])
   \<and> tx_Status (mk_tx ''t0'' ''a'' Deposit 1 Completed ''r-0'') = Completed
   \<and> mk_tx ''t0'' ''a'' Deposit 1 Completed ''r-0''
         \<in> set [mk_tx ''t0'' ''a'' Deposit 1 Completed ''r-0'',
                 mk_tx ''t3'' ''a'' Withdrawal 500 Pending ''r-3'']
   \<and> led_coll (ledger_run
        [DoCreateAccount (calm\<lparr> uuid_id := ''a'' \<rparr>) 100,
         DoSubmit (calm\<lparr> uuid_id := ''t2'' \<rparr>) (Some (mk_req ''a'' Deposit 50 ''r-2'')),
         DoProcess calm 0])
      = [(mk_tx ''t2'' ''a'' Deposit 50 Completed ''r-2'')
          \<lparr> tx_BalanceBefore := 100, tx_BalanceAfter := 150 \<rparr>]
   \<and> tx_BalanceAfter ((mk_tx ''t2'' ''a'' Deposit 50 Completed ''r-2'')
          \<lparr> tx_BalanceBefore := 100, tx_BalanceAfter := 150 \<rparr>)
      = float64_add
          (tx_BalanceBefore ((mk_tx ''t2'' ''a'' Deposit 50 Completed ''r-2'')
             \<lparr> tx_BalanceBefore := 100, tx_BalanceAfter := 150 \<rparr>))
          (tx_Amount ((mk_tx ''t2'' ''a'' Deposit 50 Completed ''r-2'')
             \<lparr> tx_BalanceBefore := 100, tx_BalanceAfter := 150 \<rparr>))
   \<and> float64_add 100 50 = 100 + 50"
proof -
  let ?w = "mk_tx ''t1'' ''a'' Withdrawal 30 Pending ''r-1''"
  let ?f = "mk_tx ''t3'' ''a'' Withdrawal 500 Pending ''r-3''"
  let ?c = "mk_tx ''t0'' ''a'' Deposit 1 Completed ''r-0''"
  let ?ops = "[DoCreateAccount (calm\<lparr> uuid_id := ''a'' \<rparr>) 100,
         DoSubmit (calm\<lparr> uuid_id := ''t2'' \<rparr>) (Some (mk_req ''a'' Deposit 50 ''r-2'')),
         DoProcess calm 0]"
  let ?doc = "(mk_tx ''t2'' ''a'' Deposit 50 Completed ''r-2'')
          \<lparr> tx_BalanceBefore := 100, tx_BalanceAfter := 150 \<rparr>"
  have run1: "ProcessTransaction (calm\<lparr> now := 9 \<rparr>) [''a'' \<mapsto> acct ''a'' 100] [?w] ?w
    = (None, [''a'' \<mapsto> (acct ''a'' 100)\<lparr> acc_Balance := 70, acc_UpdatedAt := 9 \<rparr>],
       [?w\<lparr> tx_Status := Completed, tx_BalanceBefore := 100, tx_BalanceAfter := 70,
            tx_UpdatedAt := 9 \<rparr>])"
    by (simp add: ProcessTransaction_def Postgres_GetAccount_def UpdateAccountBalance_def
          float64_add_def UpdateTransactionStatus_def mk_tx_def acct_def calm_def Let_def)
  have run3: "ProcessTransaction calm [''a'' \<mapsto> acct ''a'' 100] [?c, ?f] ?f
    = (Some (Wrap ''failed to update balance'' (New ''insufficient funds'')),
       [''a'' \<mapsto> acct ''a'' 100],
       [?c, mk_tx ''t3'' ''a'' Withdrawal 500 Failed ''r-3''])"
    by (simp add: ProcessTransaction_def Postgres_GetAccount_def UpdateAccountBalance_def
          float64_add_def UpdateTransactionStatus_def markTransactionFailed_def mk_tx_def
          acct_def calm_def Let_def const_defs)
  have led: "led_coll (ledger_run ?ops) = [?doc]"
    by (simp add: ledger_run_def AccountService_CreateAccount_def Postgres_CreateAccount_def
          Handler_CreateTransaction_def AccountService_GetAccount_def
          TransactionService_CreateTransaction_def MongoDB_GetTransactionByReference_def
          MongoDB_CreateTransaction_def PublishTransaction_def Unmarshal_def
          ProcessTransaction_def Postgres_GetAccount_def UpdateAccountBalance_def
          float64_add_def UpdateTransactionStatus_def mk_tx_def mk_req_def acct_def calm_def
          Let_def const_defs)
  have old1: "find (\<lambda>d. tx_ID d = tx_ID ?w) [?w] = Some ?w" by simp
  have old3: "find (\<lambda>d. tx_ID d = tx_ID ?f) [?c, ?f] = Some ?f" by (simp add: mk_tx_def)
  have t: "tx_Type ?w = Withdrawal" "tx_Amount ?w = 30" "tx_ID ?w = ''t1''"
    by (simp_all add: mk_tx_def)
  note w1 = completed_pair_float64 [OF run1 old1, where ops = ?ops and x = 100 and y = 50
                                     and k = 150 and j = 0]
  from w1 obtain new1 where
    n1: "find (\<lambda>d. tx_ID d = tx_ID ?w)
           [?w\<lparr> tx_Status := Completed, tx_BalanceBefore := 100, tx_BalanceAfter := 70,
              tx_UpdatedAt := 9 \<rparr>] = Some new1"
        "tx_Status new1 = Completed"
        "tx_Type new1 = tx_Type ?w" "tx_Amount new1 = tx_Amount ?w"
        "tx_Type ?w = tx_Type ?w \<and> tx_Amount ?w = tx_Amount ?w \<longrightarrow>
           (tx_Type new1 = Withdrawal \<longrightarrow>
              tx_BalanceAfter new1 = float64_add (tx_BalanceBefore new1) (- tx_Amount new1)
            \<and> 0 \<le> tx_BalanceAfter new1)"
    by blast
  have 1: "\<exists>new. find (\<lambda>d. tx_ID d = ''t1'')
          [?w\<lparr> tx_Status := Completed, tx_BalanceBefore := 100, tx_BalanceAfter := 70,
              tx_UpdatedAt := 9 \<rparr>] = Some new
        \<and> tx_Status new = Completed \<and> tx_Type new = Withdrawal \<and> tx_Amount new = 30
        \<and> tx_BalanceAfter new = float64_add (tx_BalanceBefore new) (- tx_Amount new)
        \<and> 0 \<le> tx_BalanceAfter new"
    using n1 unfolding t by blast
  have f70: "float64_add 100 (- 30) = 70" by (simp add: float64_add_def)
  from completed_pair_float64 [OF run3 old3]
  have 3: "\<forall>d \<in> set [?c, mk_tx ''t3'' ''a'' Withdrawal 500 Failed ''r-3''].
          tx_Status d = Completed \<longrightarrow> d \<in> set [?c, ?f]"
    by blast
  have st: "tx_Status ?c = Completed" by (simp add: mk_tx_def)
  with 3 have 4: "?c \<in> set [?c, ?f]" by simp
  from w1 have 5: "\<forall>d \<in> set (led_coll (ledger_run ?ops)). tx_Status d = Completed \<longrightarrow>
            (tx_Type d = Deposit \<longrightarrow>
               tx_BalanceAfter d = float64_add (tx_BalanceBefore d) (tx_Amount d))"
    by blast
  have dt: "tx_Status ?doc = Completed" "tx_Type ?doc = Deposit" by (simp_all add: mk_tx_def)
  from 5 led dt have 6: "tx_BalanceAfter ?doc
      = float64_add (tx_BalanceBefore ?doc) (tx_Amount ?doc)"
    by simp
  from w1 have "(100 :: real) + 50 = of_int 150 * 2 powi 0 \<and> \<bar>150 :: int\<bar> < 2 ^ 53 \<longrightarrow>
                float64_add 100 50 = 100 + 50"
    by blast
  then have 7: "float64_add 100 50 = 100 + 50" by simp
  from run1 1 f70 run3 st 4 led 6 7 show ?thesis by blast
qed

text \<open>
  Claim C5, as stated, fails: \<open>ProcessTransaction\<close> never reads the collection before it
  acts. Here the stored transaction is already completed (a deposit of 50 that took the
  balance from 50 to 100); the message delivered again is processed like a new one and
  the balance becomes 150.
\<close>

theorem ProcessTransaction_redelivery_counterexample:
  "tx_ID ((mk_tx ''t1'' ''a'' Deposit 50 Completed ''r-1'')
            \<lparr> tx_BalanceBefore := 50, tx_BalanceAfter := 100 \<rparr>)
     = tx_ID (mk_tx ''t1'' ''a'' Deposit 50 Pending ''r-1'')
   \<and> tx_Status ((mk_tx ''t1'' ''a'' Deposit 50 Completed ''r-1'')
         \<lparr> tx_BalanceBefore := 50, tx_BalanceAfter := 100 \<rparr>) = Completed
   \<and> [''a'' \<mapsto> acct ''a'' 100] ''a'' = Some (acct ''a'' 100)
   \<and> ProcessTransaction calm [''a'' \<mapsto> acct ''a'' 100]
        [(mk_tx ''t1'' ''a'' Deposit 50 Completed ''r-1'')
           \<lparr> tx_BalanceBefore := 50, tx_BalanceAfter := 100 \<rparr>]
        (mk_tx ''t1'' ''a'' Deposit 50 Pending ''r-1'')
      = (None, [''a'' \<mapsto> acct ''a'' 150],
         [(mk_tx ''t1'' ''a'' Deposit 50 Completed ''r-1'')
            \<lparr> tx_BalanceBefore := 100, tx_BalanceAfter := 150 \<rparr>])"
  by (simp add: ProcessTransaction_def Postgres_GetAccount_def UpdateAccountBalance_def float64_add_def
        UpdateTransactionStatus_def mk_tx_def acct_def calm_def Let_def const_defs)

text \<open>
  Claim C5, amended. \<open>ProcessTransaction\<close> does not read the transaction back and has no
  check for a terminal status: the table it leaves is the one \<open>UpdateAccountBalance\<close>
  leaves for the message's signed amount whenever the account look-up succeeds (and the
  old table otherwise), and neither this table nor the returned error depends on what the
  collection holds.
\<close>

theorem ProcessTransaction_ignores_log:
  "fst (snd (ProcessTransaction env pg coll tx)) =
     (case Postgres_GetAccount env pg (tx_AccountID tx) of
        Inl err \<Rightarrow> pg
      | Inr account \<Rightarrow>
          snd (UpdateAccountBalance env pg (tx_AccountID tx)
                 (if tx_Type tx = Withdrawal then - tx_Amount tx else tx_Amount tx)))
   \<and> fst (ProcessTransaction env pg coll tx) = fst (ProcessTransaction env pg coll2 tx)
   \<and> fst (snd (ProcessTransaction env pg coll tx))
       = fst (snd (ProcessTransaction env pg coll2 tx))"
  by (simp add: ProcessTransaction_def markTransactionFailed_def UpdateTransactionStatus_def
        Let_def split: sum.splits prod.splits option.splits)

theorem ProcessTransaction_ignores_log_witness:
  "fst (snd (ProcessTransaction calm [''a'' \<mapsto> acct ''a'' 100]
        [mk_tx ''t1'' ''a'' Withdrawal 30 Failed ''r-1'']
        (mk_tx ''t1'' ''a'' Withdrawal 30 Pending ''r-1'')))
     = [''a'' \<mapsto> acct ''a'' 70]"
  using ProcessTransaction_ignores_log
          [of calm "[''a'' \<mapsto> acct ''a'' 100]" "[mk_tx ''t1'' ''a'' Withdrawal 30 Failed ''r-1'']"
              "mk_tx ''t1'' ''a'' Withdrawal 30 Pending ''r-1''" "[]"]
  by (simp add: Postgres_GetAccount_def UpdateAccountBalance_def float64_add_def mk_tx_def acct_def calm_def
        Let_def)

text \<open>
  Claim C6, as stated, fails: any error of \<open>UpdateAccountBalance\<close> leads to
  \<open>markTransactionFailed\<close>. Here the commit fails for an infrastructure reason and the
  pending transaction is stored as failed.
\<close>

theorem ProcessTransaction_storage_error_counterexample:
  "UpdateAccountBalance (calm\<lparr> pg_commit_err := True \<rparr>) [''a'' \<mapsto> acct ''a'' 100] ''a'' 50
     = (Inl (Wrap ''failed to commit transaction'' ErrUnavailable), [''a'' \<mapsto> acct ''a'' 100])
   \<and> ProcessTransaction (calm\<lparr> pg_commit_err := True \<rparr>) [''a'' \<mapsto> acct ''a'' 100]
        [mk_tx ''t1'' ''a'' Deposit 50 Pending ''r-1'']
        (mk_tx ''t1'' ''a'' Deposit 50 Pending ''r-1'')
     = (Some (Wrap ''failed to update balance''
                (Wrap ''failed to commit transaction'' ErrUnavailable)),
        [''a'' \<mapsto> acct ''a'' 100],
        [mk_tx ''t1'' ''a'' Deposit 50 Failed ''r-1''])"
  by (simp add: ProcessTransaction_def Postgres_GetAccount_def UpdateAccountBalance_def float64_add_def
        UpdateTransactionStatus_def markTransactionFailed_def mk_tx_def acct_def calm_def
        Let_def const_defs)

text \<open>
  Claim C6, amended. When the account exists and \<open>UpdateAccountBalance\<close> fails with any
  error, an infrastructure error and insufficient funds alike, \<open>ProcessTransaction\<close>
  returns that error wrapped, leaves the table unchanged and calls
  \<open>UpdateTransactionStatus\<close> with the status failed and both balances 0; unless that
  update fails too, the stored transaction is then failed.
\<close>

theorem ProcessTransaction_any_error_marks_failed:
  assumes acc: "Postgres_GetAccount env pg (tx_AccountID tx) = Inr account"
      and upd: "UpdateAccountBalance env pg (tx_AccountID tx)
                  (if tx_Type tx = Withdrawal then - tx_Amount tx else tx_Amount tx)
                = (Inl err, pg')"
  shows "ProcessTransaction env pg coll tx =
           (Some (Wrap ''failed to update balance'' err), pg,
            snd (UpdateTransactionStatus env coll (tx_ID tx) Failed 0 0))
       \<and> (\<not> mongo_update_err env \<and> find (\<lambda>d. tx_ID d = tx_ID tx) coll = Some old \<longrightarrow>
            find (\<lambda>d. tx_ID d = tx_ID tx)
                 (snd (snd (ProcessTransaction env pg coll tx)))
            = Some (old\<lparr> tx_Status := Failed, tx_BalanceBefore := 0, tx_BalanceAfter := 0,
                          tx_UpdatedAt := now env \<rparr>))"
proof -
  from upd have pg': "pg' = pg" by (rule UpdateAccountBalance_Inl)
  have run: "ProcessTransaction env pg coll tx =
           (Some (Wrap ''failed to update balance'' err), pg,
            snd (UpdateTransactionStatus env coll (tx_ID tx) Failed 0 0))"
    using acc upd pg'
    by (simp add: ProcessTransaction_def markTransactionFailed_def Let_def split: prod.splits)
  show ?thesis
    unfolding run
    by (simp add: UpdateTransactionStatus_def find_UpdateOne)
qed

theorem ProcessTransaction_any_error_marks_failed_witness:
  "Postgres_GetAccount calm [''a'' \<mapsto> acct ''a'' 100] ''a'' = Inr (acct ''a'' 100)
   \<and> UpdateAccountBalance calm [''a'' \<mapsto> acct ''a'' 100] ''a'' (- 130)
       = (Inl (New ''insufficient funds''), [''a'' \<mapsto> acct ''a'' 100])
   \<and> ProcessTransaction calm [''a'' \<mapsto> acct ''a'' 100]
        [mk_tx ''t1'' ''a'' Withdrawal 130 Pending ''r-1'']
        (mk_tx ''t1'' ''a'' Withdrawal 130 Pending ''r-1'')
     = (Some (Wrap ''failed to update balance'' (New ''insufficient funds'')),
        [''a'' \<mapsto> acct ''a'' 100],
        [mk_tx ''t1'' ''a'' Withdrawal 130 Failed ''r-1''])"
proof -
  have acc: "Postgres_GetAccount calm [''a'' \<mapsto> acct ''a'' 100]
               (tx_AccountID (mk_tx ''t1'' ''a'' Withdrawal 130 Pending ''r-1''))
             = Inr (acct ''a'' 100)"
    by (simp add: Postgres_GetAccount_def calm_def mk_tx_def)
  have upd: "UpdateAccountBalance calm [''a'' \<mapsto> acct ''a'' 100]
               (tx_AccountID (mk_tx ''t1'' ''a'' Withdrawal 130 Pending ''r-1''))
               (if tx_Type (mk_tx ''t1'' ''a'' Withdrawal 130 Pending ''r-1'') = Withdrawal
                then - tx_Amount (mk_tx ''t1'' ''a'' Withdrawal 130 Pending ''r-1'')
                else tx_Amount (mk_tx ''t1'' ''a'' Withdrawal 130 Pending ''r-1''))
             = (Inl (New ''insufficient funds''), [''a'' \<mapsto> acct ''a'' 100])"
    by (simp add: UpdateAccountBalance_def float64_add_def calm_def mk_tx_def acct_def Let_def)
  from ProcessTransaction_any_error_marks_failed [OF acc upd] acc upd show ?thesis
    by (simp add: UpdateTransactionStatus_def calm_def mk_tx_def)
qed

section \<open>Submitting a transaction: failures and validation\<close>

text \<open>
  Claim C7, as stated, fails. A concurrent submitter stores reference \<open>r-1\<close> after the
  look-up found nothing; the insert then answers a duplicate-key error, and
  \<open>CreateTransaction\<close> returns that error instead of the stored transaction.
\<close>

theorem CreateTransaction_duplicate_counterexample:
  "MongoDB_GetTransactionByReference
      (calm\<lparr> race := [mk_tx ''t9'' ''a'' Deposit 5 Pending ''r-1''] \<rparr>) [] ''r-1'' = Inr None
   \<and> fst (MongoDB_CreateTransaction
            (calm\<lparr> race := [mk_tx ''t9'' ''a'' Deposit 5 Pending ''r-1''] \<rparr>)
            [mk_tx ''t9'' ''a'' Deposit 5 Pending ''r-1'']
            (mk_tx [] ''a'' Deposit 5 Pending ''r-1''))
       = Some (Wrap ''failed to insert transaction'' ErrDuplicateKey)
   \<and> TransactionService_CreateTransaction
        (calm\<lparr> race := [mk_tx ''t9'' ''a'' Deposit 5 Pending ''r-1''] \<rparr>) [] []
        (mk_req ''a'' Deposit 5 ''r-1'')
     = (Inl (Wrap ''Failed to create transaction''
               (Wrap ''failed to insert transaction'' ErrDuplicateKey)),
        [mk_tx ''t9'' ''a'' Deposit 5 Pending ''r-1''], [])"
  by (simp add: TransactionService_CreateTransaction_def MongoDB_GetTransactionByReference_def
        MongoDB_CreateTransaction_def mk_tx_def mk_req_def calm_def Let_def)

text \<open>
  Claim C7, amended. If the look-up by reference finds nothing and the reference is in
  the collection by the time of the insert, \<open>CreateTransaction\<close> returns the insert's
  error, wrapped; it does not read the collection again, inserts nothing and publishes
  nothing.
\<close>

theorem CreateTransaction_duplicate_is_error:
  assumes look: "MongoDB_GetTransactionByReference env coll
                   (if req_Reference req = [] then uuid_reference env else req_Reference req)
                 = Inr None"
      and dup: "\<exists>d \<in> set (coll @ race env). tx_Reference d =
                   (if req_Reference req = [] then uuid_reference env else req_Reference req)"
  shows "TransactionService_CreateTransaction env coll q req =
           (Inl (Wrap ''Failed to create transaction''
                  (Wrap ''failed to insert transaction''
                     (if mongo_insert_err env then ErrUnavailable else ErrDuplicateKey))),
            coll @ race env, q)"
  using look dup
  by (auto simp add: TransactionService_CreateTransaction_def MongoDB_CreateTransaction_def
        Let_def)

theorem CreateTransaction_duplicate_is_error_witness:
  "MongoDB_GetTransactionByReference
      (calm\<lparr> race := [mk_tx ''t9'' ''a'' Deposit 5 Pending ''r-1''] \<rparr>) [] ''r-1'' = Inr None
   \<and> (\<exists>d \<in> set ([] @ [mk_tx ''t9'' ''a'' Deposit 5 Pending ''r-1'']). tx_Reference d = ''r-1'')
   \<and> TransactionService_CreateTransaction
        (calm\<lparr> race := [mk_tx ''t9'' ''a'' Deposit 5 Pending ''r-1''] \<rparr>) [] [Garbage ''x'']
        (mk_req ''a'' Deposit 5 ''r-1'')
     = (Inl (Wrap ''Failed to create transaction''
               (Wrap ''failed to insert transaction'' ErrDuplicateKey)),
        [mk_tx ''t9'' ''a'' Deposit 5 Pending ''r-1''], [Garbage ''x''])"
  using CreateTransaction_duplicate_is_error
          [of "calm\<lparr> race := [mk_tx ''t9'' ''a'' Deposit 5 Pending ''r-1''] \<rparr>" "[]"
              "mk_req ''a'' Deposit 5 ''r-1''" "[Garbage ''x'']"]
  by (simp add: MongoDB_GetTransactionByReference_def mk_tx_def mk_req_def calm_def)

text \<open>
  Claim C8. The code at two requests the claim wants refused: a deposit of -5 and a
  transaction of the unknown type \<open>transfer\<close>, both on an existing account. Each is
  answered 201, stored as pending and published; processing the first takes 5 off the
  balance.
\<close>

theorem Handler_CreateTransaction_accepts_invalid:
  "Handler_CreateTransaction calm [''a'' \<mapsto> acct ''a'' 100] [] []
      (Some (mk_req ''a'' Deposit (- 5) ''r-1''))
     = ((201, TransactionBody
               (created_response (mk_tx ''uuid-i'' ''a'' Deposit (- 5) Pending ''r-1''))),
        [mk_tx ''uuid-i'' ''a'' Deposit (- 5) Pending ''r-1''],
        [Json (mk_tx ''uuid-i'' ''a'' Deposit (- 5) Pending ''r-1'')])
   \<and> Handler_CreateTransaction calm [''a'' \<mapsto> acct ''a'' 100] [] []
      (Some (mk_req ''a'' ''transfer'' 5 ''r-2''))
     = ((201, TransactionBody
               (created_response (mk_tx ''uuid-i'' ''a'' ''transfer'' 5 Pending ''r-2''))),
        [mk_tx ''uuid-i'' ''a'' ''transfer'' 5 Pending ''r-2''],
        [Json (mk_tx ''uuid-i'' ''a'' ''transfer'' 5 Pending ''r-2'')])
   \<and> fst (snd (ProcessTransaction calm [''a'' \<mapsto> acct ''a'' 100]
               [mk_tx ''uuid-i'' ''a'' Deposit (- 5) Pending ''r-1'']
               (mk_tx ''uuid-i'' ''a'' Deposit (- 5) Pending ''r-1''))) ''a''
     = Some (acct ''a'' 95)"
  by (simp add: Handler_CreateTransaction_def AccountService_GetAccount_def
        Postgres_GetAccount_def TransactionService_CreateTransaction_def
        MongoDB_GetTransactionByReference_def MongoDB_CreateTransaction_def
        PublishTransaction_def ProcessTransaction_def UpdateAccountBalance_def float64_add_def
        UpdateTransactionStatus_def
        mk_tx_def mk_req_def acct_def calm_def Let_def const_defs)

section \<open>Listing the transactions of an account\<close>

text \<open>
  Claim C9, as stated, fails for \<open>limit=0\<close>: the handler keeps a parsed limit only when
  it is positive, so the default of 10 applies, and the gateway called with limit 0 puts
  no limit at all. With one transaction stored, both return it.
\<close>

theorem GetTransactions_limit_zero_counterexample:
  "Handler_GetTransactions calm [mk_tx ''t1'' ''a'' Deposit 5 Pending ''r-1''] ''a'' ''0'' []
     = (200, TransactionList [full_response (mk_tx ''t1'' ''a'' Deposit 5 Pending ''r-1'')])
   \<and> MongoDB_GetTransactionsByAccountID calm [mk_tx ''t1'' ''a'' Deposit 5 Pending ''r-1'']
        ''a'' 0 0
     = Inr [mk_tx ''t1'' ''a'' Deposit 5 Pending ''r-1'']"
  by (simp add: Handler_GetTransactions_def TransactionService_GetTransactionsByAccountID_def
        MongoDB_GetTransactionsByAccountID_def SetLimit_def SetSort_def Atoi_zero
        mk_tx_def calm_def Let_def)

text \<open>
  Claim C9, amended. \<open>limit=0\<close> is answered like a request without a limit: with the
  default page of at most 10, the newest first (and the gateway, called with limit 0,
  returns everything after the offset). Every page the handler returns is ordered by
  \<open>created_at\<close>, newest first, and is empty when the offset is an integer at or past
  the number of the account's transactions.
\<close>

theorem GetTransactions_page:
  "Handler_GetTransactions env coll accountID ''0'' offsetStr
     = Handler_GetTransactions env coll accountID [] offsetStr
   \<and> (\<not> mongo_find_err env \<and> \<not> mongo_cursor_err env \<longrightarrow>
        Handler_GetTransactions env coll accountID ''0'' []
          = (200, TransactionList (map full_response
               (take 10 (SetSort (filter (\<lambda>d. tx_AccountID d = accountID) coll))))))
   \<and> (\<not> mongo_find_err env \<and> \<not> mongo_cursor_err env \<and> 0 \<le> offset \<longrightarrow>
        MongoDB_GetTransactionsByAccountID env coll accountID 0 offset
          = Inr (drop (nat offset)
                   (SetSort (filter (\<lambda>d. tx_AccountID d = accountID) coll))))
   \<and> (Handler_GetTransactions env coll accountID limitStr offsetStr
          = (200, TransactionList page) \<longrightarrow>
        sorted_wrt (\<lambda>a b. resp_CreatedAt b \<le> resp_CreatedAt a) page
        \<and> (\<forall>k. Atoi offsetStr = Some k
               \<and> int (length (filter (\<lambda>d. tx_AccountID d = accountID) coll)) \<le> k
             \<longrightarrow> page = []))"
proof (intro conjI impI allI)
  show "Handler_GetTransactions env coll accountID ''0'' offsetStr
     = Handler_GetTransactions env coll accountID [] offsetStr"
    by (simp add: Handler_GetTransactions_def Atoi_zero)
next
  assume "\<not> mongo_find_err env \<and> \<not> mongo_cursor_err env"
  then show "Handler_GetTransactions env coll accountID ''0'' []
          = (200, TransactionList (map full_response
               (take 10 (SetSort (filter (\<lambda>d. tx_AccountID d = accountID) coll)))))"
    by (simp add: Handler_GetTransactions_def Atoi_zero
          TransactionService_GetTransactionsByAccountID_def
          MongoDB_GetTransactionsByAccountID_def SetLimit_def)
next
  assume "\<not> mongo_find_err env \<and> \<not> mongo_cursor_err env \<and> 0 \<le> offset"
  then show "MongoDB_GetTransactionsByAccountID env coll accountID 0 offset
          = Inr (drop (nat offset)
                   (SetSort (filter (\<lambda>d. tx_AccountID d = accountID) coll)))"
    by (simp add: MongoDB_GetTransactionsByAccountID_def SetLimit_def)
next
  assume h: "Handler_GetTransactions env coll accountID limitStr offsetStr
          = (200, TransactionList page)"
  from page_of_Handler [OF h] obtain limit offset where
    p: "page = map full_response (SetLimit limit (drop (nat offset)
                  (SetSort (filter (\<lambda>d. tx_AccountID d = accountID) coll))))"
    by blast
  have "sorted_wrt (\<lambda>a b. tx_CreatedAt b \<le> tx_CreatedAt a)
          (SetLimit limit (drop (nat offset)
                  (SetSort (filter (\<lambda>d. tx_AccountID d = accountID) coll))))"
    by (intro sorted_SetLimit sorted_wrt_drop sorted_SetSort)
  then show "sorted_wrt (\<lambda>a b. resp_CreatedAt b \<le> resp_CreatedAt a) page"
    unfolding p by (simp add: sorted_wrt_map full_response_def)
next
  fix k
  assume h: "Handler_GetTransactions env coll accountID limitStr offsetStr
          = (200, TransactionList page)"
    and k: "Atoi offsetStr = Some k
               \<and> int (length (filter (\<lambda>d. tx_AccountID d = accountID) coll)) \<le> k"
  from k have ne: "offsetStr \<noteq> []" using Atoi_Nil by auto
  from k have k0: "0 \<le> k" by linarith
  from page_of_Handler [OF h] ne k k0 obtain limit where
    p: "page = map full_response (SetLimit limit (drop (nat k)
                  (SetSort (filter (\<lambda>d. tx_AccountID d = accountID) coll))))"
    by auto
  from k have "length (SetSort (filter (\<lambda>d. tx_AccountID d = accountID) coll)) \<le> nat k"
    by (simp add: length_SetSort) linarith
  then show "page = []"
    unfolding p by (simp add: SetLimit_def)
qed

theorem GetTransactions_page_witness:
  "Atoi ''2'' = Some 2
   \<and> int (length (filter (\<lambda>d. tx_AccountID d = ''a'') coll3)) \<le> 2
   \<and> Handler_GetTransactions calm coll3 ''a'' ''7'' ''2'' = (200, TransactionList [])
   \<and> Handler_GetTransactions calm coll3 ''a'' ''0'' []
     = (200, TransactionList
          [full_response ((mk_tx ''t3'' ''a'' Withdrawal 2 Pending ''r-3'')
                            \<lparr> tx_CreatedAt := 3 \<rparr>),
           full_response ((mk_tx ''t1'' ''a'' Deposit 5 Completed ''r-1'')
                            \<lparr> tx_CreatedAt := 1 \<rparr>)])
   \<and> sorted_wrt (\<lambda>a b. resp_CreatedAt b \<le> resp_CreatedAt a)
          [full_response ((mk_tx ''t3'' ''a'' Withdrawal 2 Pending ''r-3'')
                            \<lparr> tx_CreatedAt := 3 \<rparr>),
           full_response ((mk_tx ''t1'' ''a'' Deposit 5 Completed ''r-1'')
                            \<lparr> tx_CreatedAt := 1 \<rparr>)]"
proof -
  have a2: "Atoi ''2'' = Some 2" and a7: "Atoi ''7'' = Some 7"
    by (simp_all add: Atoi_def is_digit_def)
  have l: "int (length (filter (\<lambda>d. tx_AccountID d = ''a'') coll3)) \<le> 2"
    by (simp add: coll3_def mk_tx_def)
  have c: "\<not> mongo_find_err calm \<and> \<not> mongo_cursor_err calm"
    by (simp add: calm_def)
  have srt: "take 10 (SetSort (filter (\<lambda>d. tx_AccountID d = ''a'') coll3))
      = [(mk_tx ''t3'' ''a'' Withdrawal 2 Pending ''r-3'')\<lparr> tx_CreatedAt := 3 \<rparr>,
         (mk_tx ''t1'' ''a'' Deposit 5 Completed ''r-1'')\<lparr> tx_CreatedAt := 1 \<rparr>]"
    by (simp add: SetSort_def coll3_def mk_tx_def)
  have h: "Handler_GetTransactions calm coll3 ''a'' ''7'' ''2'' = (200, TransactionList [])"
    by (simp add: Handler_GetTransactions_def TransactionService_GetTransactionsByAccountID_def
          MongoDB_GetTransactionsByAccountID_def SetLimit_def SetSort_def a2 a7 coll3_def
          mk_tx_def calm_def Let_def)
  have p: "Handler_GetTransactions calm coll3 ''a'' ''0'' []
     = (200, TransactionList
          [full_response ((mk_tx ''t3'' ''a'' Withdrawal 2 Pending ''r-3'')
                            \<lparr> tx_CreatedAt := 3 \<rparr>),
           full_response ((mk_tx ''t1'' ''a'' Deposit 5 Completed ''r-1'')
                            \<lparr> tx_CreatedAt := 1 \<rparr>)])"
    using GetTransactions_page
            [where env = calm and coll = coll3 and accountID = "''a''" and offsetStr = "''2''"
               and limitStr = "''7''" and page = "[]"] c srt a2 l h
    by simp
  have s: "sorted_wrt (\<lambda>a b. resp_CreatedAt b \<le> resp_CreatedAt a)
          [full_response ((mk_tx ''t3'' ''a'' Withdrawal 2 Pending ''r-3'')
                            \<lparr> tx_CreatedAt := 3 \<rparr>),
           full_response ((mk_tx ''t1'' ''a'' Deposit 5 Completed ''r-1'')
                            \<lparr> tx_CreatedAt := 1 \<rparr>)]"
    using GetTransactions_page
            [where env = calm and coll = coll3 and accountID = "''a''" and offsetStr = "[]"
               and limitStr = "''0''" and page =
                "[full_response ((mk_tx ''t3'' ''a'' Withdrawal 2 Pending ''r-3'')
                                   \<lparr> tx_CreatedAt := 3 \<rparr>),
                  full_response ((mk_tx ''t1'' ''a'' Deposit 5 Completed ''r-1'')
                                   \<lparr> tx_CreatedAt := 1 \<rparr>)]"] p
    by blast
  from a2 l h p s show ?thesis by blast
qed

section \<open>Acknowledging the messages\<close>

text \<open>
  Claim C10, as stated, fails on the order of the acknowledgement and the end of
  processing: after the hand-off the two goroutines run on their own, and in this
  schedule \<open>ProcessTransaction\<close> has returned before the consumer calls \<open>Ack\<close>.
\<close>

theorem consumer_ack_counterexample:
  "trace (run (start [Json (mk_tx ''t1'' ''a'' Deposit 50 Pending ''r-1'')]
                 [''a'' \<mapsto> acct ''a'' 100] [mk_tx ''t1'' ''a'' Deposit 50 Pending ''r-1''])
            [Deliver, Handoff, Process calm, Ack])
     = [Handed 0, Processed 0 None, Acked 0]
   \<and> precedes (Processed 0 None) (Acked 0) [Handed 0, Processed 0 None, Acked 0]"
  by (simp add: run_def start_def deliver_def Unmarshal_def precedes_def
        ProcessTransaction_def Postgres_GetAccount_def UpdateAccountBalance_def float64_add_def
        UpdateTransactionStatus_def mk_tx_def acct_def calm_def Let_def const_defs)

text \<open>
  Claim C10, amended. In every state that a schedule reaches from the start: a delivery
  handed to the processing channel decoded, and it is acknowledged already or its
  acknowledgement is the consumer's next step, which is taken whatever the processor
  does; an acknowledgement comes after its hand-off; only a delivery that does not decode
  is rejected; the processing of a delivery ends after its hand-off; and the consumer's
  rejections, hand-offs and acknowledgements are the same for any stores and any
  environments of the processing steps, that is, whatever the outcome of processing.
\<close>

theorem consumer_ack_discipline:
  assumes s: "s = run (start ds pg coll) schedule"
  shows "(\<forall>t. Handed t \<in> set (trace s) \<longrightarrow>
            t < length ds \<and> (\<exists>tx. Unmarshal (ds ! t) = Inr tx)
          \<and> (Acked t \<in> set (trace s) \<or> consumer s = CAck t))
       \<and> (\<forall>t. consumer s = CAck t \<longrightarrow>
            exec s Ack = s\<lparr> consumer := CSelect, trace := trace s @ [Acked t] \<rparr>)
       \<and> (\<forall>t. Acked t \<in> set (trace s) \<longrightarrow> precedes (Handed t) (Acked t) (trace s))
       \<and> (\<forall>t. Rejected t \<in> set (trace s) \<longrightarrow>
            t < length ds \<and> (\<exists>err. Unmarshal (ds ! t) = Inl err))
       \<and> (\<forall>t r. Processed t r \<in> set (trace s) \<longrightarrow>
            precedes (Handed t) (Processed t r) (trace s))
       \<and> (\<forall>pg' coll' schedule'. map shape schedule' = map shape schedule \<longrightarrow>
            filter consumer_event (trace (run (start ds pg' coll') schedule'))
            = filter consumer_event (trace s))"
proof -
  have i: "sys_inv ds s" unfolding s by (rule sys_inv_run)
  note D = sys_invD [OF i]
  have tag: "\<And>e. e \<in> set (trace s) \<Longrightarrow> tag_of e < length ds"
    using D(1) D(3) by fastforce
  have 1: "\<forall>t. Handed t \<in> set (trace s) \<longrightarrow>
            t < length ds \<and> (\<exists>tx. Unmarshal (ds ! t) = Inr tx)
          \<and> (Acked t \<in> set (trace s) \<or> consumer s = CAck t)"
  proof (intro allI impI conjI)
    fix t assume h: "Handed t \<in> set (trace s)"
    from tag [OF h] show "t < length ds" by simp
    from D(5) [OF h] show "\<exists>tx. Unmarshal (ds ! t) = Inr tx"
      by (cases "Unmarshal (ds ! t)") auto
    from D(7) [OF h] show "Acked t \<in> set (trace s) \<or> consumer s = CAck t" .
  qed
  have 2: "\<forall>t. consumer s = CAck t \<longrightarrow>
            exec s Ack = s\<lparr> consumer := CSelect, trace := trace s @ [Acked t] \<rparr>"
    by simp
  have 3: "\<forall>t. Acked t \<in> set (trace s) \<longrightarrow> precedes (Handed t) (Acked t) (trace s)"
    using D(6) by blast
  have 4: "\<forall>t. Rejected t \<in> set (trace s) \<longrightarrow>
            t < length ds \<and> (\<exists>err. Unmarshal (ds ! t) = Inl err)"
  proof (intro allI impI conjI)
    fix t assume h: "Rejected t \<in> set (trace s)"
    from tag [OF h] show "t < length ds" by simp
    from D(4) [OF h] show "\<exists>err. Unmarshal (ds ! t) = Inl err"
      by (cases "Unmarshal (ds ! t)") auto
  qed
  have 5: "\<forall>t r. Processed t r \<in> set (trace s) \<longrightarrow>
            precedes (Handed t) (Processed t r) (trace s)"
    using D(11) by blast
  have 6: "\<forall>pg' coll' schedule'. map shape schedule' = map shape schedule \<longrightarrow>
            filter consumer_event (trace (run (start ds pg' coll') schedule'))
            = filter consumer_event (trace s)"
  proof (intro allI impI)
    fix pg' coll' schedule'
    assume m: "map shape schedule' = map shape schedule"
    have "same_control (run (start ds pg' coll') schedule') (run (start ds pg coll) schedule)"
      unfolding run_def by (rule same_control_foldl [OF same_control_start m])
    then show "filter consumer_event (trace (run (start ds pg' coll') schedule'))
            = filter consumer_event (trace s)"
      by (simp add: same_control_def s)
  qed
  from 1 2 3 4 5 6 show ?thesis by blast
qed

theorem consumer_ack_discipline_witness:
  "trace (run (start ds2 Map.empty []) [Deliver, Deliver, Handoff, Ack, Process calm])
     = [Rejected 0, Handed 1, Acked 1,
        Processed 1 (Some (Wrap ''account not found'' (New ''account not found'')))]
   \<and> precedes (Handed 1) (Acked 1)
        (trace (run (start ds2 Map.empty []) [Deliver, Deliver, Handoff, Ack, Process calm]))
   \<and> (\<exists>err. Unmarshal (ds2 ! 0) = Inl err)
   \<and> (\<exists>tx. Unmarshal (ds2 ! 1) = Inr tx)
   \<and> consumer (run (start ds2 Map.empty []) [Deliver, Deliver, Handoff]) = CAck 1
   \<and> trace (exec (run (start ds2 Map.empty []) [Deliver, Deliver, Handoff]) Ack)
       = [Rejected 0, Handed 1, Acked 1]
   \<and> filter consumer_event
        (trace (run (start ds2 [''a'' \<mapsto> acct ''a'' 100] [])
                  [Deliver, Deliver, Handoff, Ack, Process (calm\<lparr> pg_commit_err := True \<rparr>)]))
       = [Rejected 0, Handed 1, Acked 1]"
proof -
  let ?s1 = "run (start ds2 Map.empty []) [Deliver, Deliver, Handoff, Ack, Process calm]"
  let ?s2 = "run (start ds2 Map.empty []) [Deliver, Deliver, Handoff]"
  have t1: "trace ?s1 = [Rejected 0, Handed 1, Acked 1,
        Processed 1 (Some (Wrap ''account not found'' (New ''account not found'')))]"
    by (simp add: run_def start_def deliver_def Unmarshal_def ds2_def
          ProcessTransaction_def Postgres_GetAccount_def markTransactionFailed_def
          UpdateTransactionStatus_def mk_tx_def calm_def Let_def const_defs)
  have c2: "consumer ?s2 = CAck 1" and t2: "trace ?s2 = [Rejected 0, Handed 1]"
    by (simp_all add: run_def start_def deliver_def Unmarshal_def ds2_def)
  note i1 = consumer_ack_discipline [OF refl, of ds2 Map.empty "[]"
              "[Deliver, Deliver, Handoff, Ack, Process calm]"]
  note i2 = consumer_ack_discipline [OF refl, of ds2 Map.empty "[]"
              "[Deliver, Deliver, Handoff]"]
  from i1 have a: "Acked 1 \<in> set (trace ?s1) \<longrightarrow> precedes (Handed 1) (Acked 1) (trace ?s1)"
    by blast
  have p: "precedes (Handed 1) (Acked 1) (trace ?s1)"
    using a by (simp add: t1)
  from i1 have "Rejected 0 \<in> set (trace ?s1) \<longrightarrow> (\<exists>err. Unmarshal (ds2 ! 0) = Inl err)"
    by blast
  then have r: "\<exists>err. Unmarshal (ds2 ! 0) = Inl err"
    by (simp add: t1)
  from i1 have "Handed 1 \<in> set (trace ?s1) \<longrightarrow> (\<exists>tx. Unmarshal (ds2 ! 1) = Inr tx)"
    by blast
  then have h: "\<exists>tx. Unmarshal (ds2 ! 1) = Inr tx"
    by (simp add: t1)
  from i2 have "consumer ?s2 = CAck 1 \<longrightarrow>
      exec ?s2 Ack = ?s2\<lparr> consumer := CSelect, trace := trace ?s2 @ [Acked 1] \<rparr>"
    by blast
  with c2 have e: "trace (exec ?s2 Ack) = [Rejected 0, Handed 1, Acked 1]"
    by (simp add: t2)
  from i1 have "map shape [Deliver, Deliver, Handoff, Ack, Process (calm\<lparr> pg_commit_err := True \<rparr>)]
        = map shape [Deliver, Deliver, Handoff, Ack, Process calm] \<longrightarrow>
      filter consumer_event
        (trace (run (start ds2 [''a'' \<mapsto> acct ''a'' 100] [])
                  [Deliver, Deliver, Handoff, Ack, Process (calm\<lparr> pg_commit_err := True \<rparr>)]))
      = filter consumer_event (trace ?s1)"
    by blast
  then have f: "filter consumer_event
        (trace (run (start ds2 [''a'' \<mapsto> acct ''a'' 100] [])
                  [Deliver, Deliver, Handoff, Ack, Process (calm\<lparr> pg_commit_err := True \<rparr>)]))
       = [Rejected 0, Handed 1, Acked 1]"
    by (simp add: t1)
  from t1 p r h c2 e f show ?thesis by blast
qed

end
